theory Spec2Isabelle
  imports Complex_Main "HOL-Library.Multiset"
begin

section \<open>Values shared by the run installer and the Linear hooks\<close>

text \<open>
  Every value thrown in the embedded code is a JavaScript \<^verbatim>\<open>Error\<close> carrying a message.
  A function that may throw returns \<open>error + 'a\<close>, with \<open>Inl\<close> for the thrown error.
\<close>

datatype error = Error string

fun message :: "error \<Rightarrow> string" where
  "message (Error m) = m"

text \<open>
  String conversion of a thrown error inside a template literal. The prefix is the name of
  the error's class, taken to be \<^verbatim>\<open>Error\<close>; it appears in logged lines only.
\<close>

definition err_to_string :: "error \<Rightarrow> string" where
  "err_to_string e = ''Error: '' @ message e"

text \<open>The values handed to \<^verbatim>\<open>JSON.stringify\<close>.\<close>

datatype json = JNull | JStr string | JArr "json list" | JObj "(string \<times> json) list"

text \<open>Truthiness of an optional string: \<^verbatim>\<open>undefined\<close> and the empty string are falsy.\<close>

fun truthy :: "string option \<Rightarrow> bool" where
  "truthy None = False"
| "truthy (Some s) = (s \<noteq> [])"

definition dq :: string where
  "dq = [CHR 0x22]"

subsection \<open>Data of \<^verbatim>\<open>linear-hooks.ts\<close>\<close>

record LinearIssue =
  li_id :: string
  li_identifier :: string
  li_title :: string
  li_description :: string
  li_priority :: real
  li_state :: "string \<times> string"
  li_labels :: "(string \<times> string) list"
  li_sortOrder :: real

record LinearStory =
  ls_id :: string
  ls_title :: string
  ls_description :: string
  ls_acceptanceCriteria :: "string list"
  ls_linearIssueId :: string
  ls_linearIdentifier :: string

record Label =
  label_id :: string
  label_name :: string

record TeamState =
  state_id :: string
  state_name :: string
  state_team :: string

subsection \<open>Data of \<^verbatim>\<open>run.ts\<close>\<close>

record RunWorkflowParams =
  workflowId :: string
  taskTitle :: string
  notifyUrl :: "string option"
  storiesFrom :: "string option"
  repo :: "string option"
  approve :: "bool option"
  linearTeam :: "string option"
  linearProject :: "string option"

text \<open>
  The workflow specification is produced by \<^verbatim>\<open>loadWorkflowSpec\<close>, which is imported
  by \<^verbatim>\<open>run.ts\<close>; only the fields that \<^verbatim>\<open>runWorkflow\<close> reads are kept.
  \<open>wf_notifications_url\<close> is the value of \<^verbatim>\<open>workflow.notifications?.url\<close> and
  \<open>step_on_fail_max_retries\<close> the value of \<^verbatim>\<open>step.on_fail?.max_retries\<close>.
\<close>

record StepSpec =
  step_id :: string
  step_agent :: string
  step_input :: string
  step_expects :: string
  step_max_retries :: "nat option"
  step_on_fail_max_retries :: "nat option"
  step_type :: "string option"
  step_loop :: "json option"

record WorkflowSpec =
  wf_id :: string
  wf_steps :: "StepSpec list"
  wf_context :: "(string \<times> string) list"
  wf_notifications_url :: "string option"

text \<open>The rows written by the three \<^verbatim>\<open>INSERT\<close> statements of \<^verbatim>\<open>runWorkflow\<close>.\<close>

record run_row =
  run_id :: string
  run_number :: nat
  run_workflow_id :: string
  run_task :: string
  run_status :: string
  run_context :: string
  run_notify_url :: "string option"
  run_created_at :: string
  run_updated_at :: string

record step_row =
  sr_id :: string
  sr_run_id :: string
  sr_step_id :: string
  sr_agent_id :: string
  sr_step_index :: nat
  sr_input_template :: string
  sr_expects :: string
  sr_status :: string
  sr_max_retries :: nat
  sr_type :: string
  sr_loop_config :: "string option"
  sr_created_at :: string
  sr_updated_at :: string

record story_row =
  st_id :: string
  st_run_id :: string
  st_story_index :: nat
  st_story_id :: string
  st_title :: string
  st_description :: string
  st_acceptance_criteria :: string
  st_status :: string
  st_retry_count :: nat
  st_max_retries :: nat
  st_created_at :: string
  st_updated_at :: string

record db =
  runs :: "run_row list"
  steps :: "step_row list"
  stories :: "story_row list"

record event =
  ev_ts :: string
  ev_event :: string
  ev_runId :: string
  ev_workflowId :: string

record RunResult =
  res_id :: string
  res_runNumber :: nat
  res_workflowId :: string
  res_task :: string
  res_status :: string

section \<open>The world outside the embedded code\<close>

text \<open>
  What the code obtains from the runtime, from the operating system and from the modules
  it imports is a parameter of the model:
  \<^item> \<open>uuid k\<close> and \<open>clock k\<close> are the results of the \<open>k\<close>-th call of
    \<^verbatim>\<open>crypto.randomUUID()\<close> and of \<^verbatim>\<open>new Date().toISOString()\<close>;
  \<^item> \<open>db_fault k\<close> is the message of the error thrown by the \<open>k\<close>-th statement sent to
    the database connection, if that statement fails;
  \<^item> \<open>nextRunNumber\<close>, \<open>loadWorkflowSpec\<close> (after \<^verbatim>\<open>resolveWorkflowDir\<close>) and
    \<open>ensureWorkflowCrons\<close> are the imported functions of those names;
  \<^item> \<open>linear_cli args\<close> is the outcome of \<^verbatim>\<open>execFileSync("linear", args, ...)\<close>;
  \<^item> \<open>parse_issues\<close>, \<open>parse_issue\<close>, \<open>parse_labels\<close>, \<open>parse_created\<close> and
    \<open>parse_states\<close> are \<^verbatim>\<open>JSON.parse(output) as T\<close> at the five types \<open>T\<close> used
    (\<open>None\<close> from \<open>parse_issues\<close> is the JSON value \<^verbatim>\<open>null\<close>; \<open>parse_created\<close> yields the
    \<^verbatim>\<open>id\<close> field);
  \<^item> \<open>JSON_stringify\<close>, \<open>toLowerCase\<close> and \<open>trim\<close> are the built-ins of those names;
  \<^item> \<open>match_checkbox d\<close> and \<open>match_numbered d\<close> are the first capture groups of all
    matches, in order, of the two regular expressions of \<^verbatim>\<open>parseAcceptanceCriteria\<close>
    in \<open>d\<close>.
\<close>

record env =
  uuid :: "nat \<Rightarrow> string"
  clock :: "nat \<Rightarrow> string"
  db_fault :: "nat \<Rightarrow> string option"
  nextRunNumber :: "db \<Rightarrow> nat"
  loadWorkflowSpec :: "string \<Rightarrow> error + WorkflowSpec"
  ensureWorkflowCrons :: "WorkflowSpec \<Rightarrow> error option"
  linear_cli :: "string list \<Rightarrow> error + string"
  parse_issues :: "string \<Rightarrow> error + LinearIssue list option"
  parse_issue :: "string \<Rightarrow> error + LinearIssue"
  parse_labels :: "string \<Rightarrow> error + Label list"
  parse_created :: "string \<Rightarrow> error + string"
  parse_states :: "string \<Rightarrow> error + TeamState list"
  JSON_stringify :: "json \<Rightarrow> string"
  toLowerCase :: "string \<Rightarrow> string"
  trim :: "string \<Rightarrow> string"
  match_checkbox :: "string \<Rightarrow> string list"
  match_numbered :: "string \<Rightarrow> string list"

text \<open>
  The mutable state: the database connection returned by \<^verbatim>\<open>getDb()\<close> (the committed
  content, the working copy of an open transaction, and the number of statements sent so
  far), the number of identifiers and clock readings consumed, the lines written by
  \<^verbatim>\<open>logger\<close> (the message, without the metadata object), the events emitted, and the
  module variable \<^verbatim>\<open>_stateCache\<close>.
\<close>

record world =
  committed :: db
  txn :: "db option"
  stmts :: nat
  uuids :: nat
  ticks :: nat
  log_lines :: "string list"
  events :: "event list"
  stateCache :: "(string \<rightharpoonup> (string \<rightharpoonup> string)) option"

type_synonym 'a io = "world \<Rightarrow> (error + 'a) \<times> world"

definition ret :: "'a \<Rightarrow> 'a io" where
  "ret x w = (Inr x, w)"

definition throw :: "error \<Rightarrow> 'a io" where
  "throw e w = (Inl e, w)"

text \<open>Sequencing: a thrown error skips the rest.\<close>

definition andThen :: "'a io \<Rightarrow> ('a \<Rightarrow> 'b io) \<Rightarrow> 'b io" where
  "andThen m f w = (case m w of (Inl e, w1) \<Rightarrow> (Inl e, w1) | (Inr x, w1) \<Rightarrow> f x w1)"

text \<open>\<^verbatim>\<open>try { m } catch (err) { h(err) }\<close>\<close>

definition try_catch :: "'a io \<Rightarrow> (error \<Rightarrow> 'a io) \<Rightarrow> 'a io" where
  "try_catch m h w = (case m w of (Inl e, w1) \<Rightarrow> h e w1 | (Inr x, w1) \<Rightarrow> (Inr x, w1))"

definition pure_call :: "error + 'a \<Rightarrow> 'a io" where
  "pure_call r w = (r, w)"

definition logger_info :: "string \<Rightarrow> unit io" where
  "logger_info line w = (Inr (), w\<lparr>log_lines := log_lines w @ [''info: '' @ line]\<rparr>)"

definition logger_warn :: "string \<Rightarrow> unit io" where
  "logger_warn line w = (Inr (), w\<lparr>log_lines := log_lines w @ [''warn: '' @ line]\<rparr>)"

definition emitEvent :: "event \<Rightarrow> unit io" where
  "emitEvent e w = (Inr (), w\<lparr>events := events w @ [e]\<rparr>)"

definition randomUUID :: "env \<Rightarrow> string io" where
  "randomUUID E w = (Inr (uuid E (uuids w)), w\<lparr>uuids := uuids w + 1\<rparr>)"

definition nowISO :: "env \<Rightarrow> string io" where
  "nowISO E w = (Inr (clock E (ticks w)), w\<lparr>ticks := ticks w + 1\<rparr>)"

subsection \<open>The database connection\<close>

text \<open>
  A statement that fails changes nothing. A statement that succeeds outside a transaction
  is committed at once; inside a transaction it changes the working copy only.
  \<open>db_prepare\<close> is \<^verbatim>\<open>db.prepare(sql)\<close>, \<open>db_run f\<close> is \<^verbatim>\<open>stmt.run(...)\<close> for a
  statement whose effect on the tables is \<open>f\<close>.
\<close>

definition db_run :: "env \<Rightarrow> (db \<Rightarrow> db) \<Rightarrow> unit io" where
  "db_run E f w =
     (let w1 = w\<lparr>stmts := stmts w + 1\<rparr> in
      case db_fault E (stmts w) of
        Some m \<Rightarrow> (Inl (Error m), w1)
      | None \<Rightarrow>
          (case txn w of
             None \<Rightarrow> (Inr (), w1\<lparr>committed := f (committed w)\<rparr>)
           | Some t \<Rightarrow> (Inr (), w1\<lparr>txn := Some (f t)\<rparr>)))"

definition db_prepare :: "env \<Rightarrow> unit io" where
  "db_prepare E = db_run E (\<lambda>d. d)"

definition db_begin :: "env \<Rightarrow> unit io" where
  "db_begin E w =
     (let w1 = w\<lparr>stmts := stmts w + 1\<rparr> in
      case db_fault E (stmts w) of
        Some m \<Rightarrow> (Inl (Error m), w1)
      | None \<Rightarrow>
          (case txn w of
             None \<Rightarrow> (Inr (), w1\<lparr>txn := Some (committed w)\<rparr>)
           | Some t \<Rightarrow> (Inl (Error ''cannot start a transaction within a transaction''), w1)))"

definition db_commit :: "env \<Rightarrow> unit io" where
  "db_commit E w =
     (let w1 = w\<lparr>stmts := stmts w + 1\<rparr> in
      case db_fault E (stmts w) of
        Some m \<Rightarrow> (Inl (Error m), w1)
      | None \<Rightarrow>
          (case txn w of
             None \<Rightarrow> (Inl (Error ''cannot commit - no transaction is active''), w1)
           | Some t \<Rightarrow> (Inr (), w1\<lparr>committed := t, txn := None\<rparr>)))"

text \<open>
  \<^verbatim>\<open>ROLLBACK\<close> fails only when no transaction is open. After some errors (disk full, I/O
  error, out of memory) SQLite ends the transaction by itself, and the \<^verbatim>\<open>ROLLBACK\<close> of
  line 139 then throws in place of the original error; here a failing statement always leaves
  the transaction open, so only the error that reaches the caller can differ.
\<close>

definition db_rollback :: "unit io" where
  "db_rollback w =
     (let w1 = w\<lparr>stmts := stmts w + 1\<rparr> in
      case txn w of
        None \<Rightarrow> (Inl (Error ''cannot rollback - no transaction is active''), w1)
      | Some t \<Rightarrow> (Inr (), w1\<lparr>txn := None\<rparr>))"

section \<open>\<^verbatim>\<open>linear-hooks.ts\<close>\<close>

fun join_sp :: "string list \<Rightarrow> string" where
  "join_sp [] = []"
| "join_sp [a] = a"
| "join_sp (a # b # rest) = a @ '' '' @ join_sp (b # rest)"

text \<open>The separator of the message is an em dash, three bytes in UTF-8.\<close>

definition linearExec :: "env \<Rightarrow> string list \<Rightarrow> bool \<Rightarrow> error + string" where
  "linearExec E args js =
     (let fullArgs = args @ (if js then [''--json''] else []) in
      case linear_cli E fullArgs of
        Inr out \<Rightarrow> Inr (trim E out)
      | Inl err \<Rightarrow>
          Inl (Error (''linear CLI failed: '' @ join_sp fullArgs @ '' ''
                 @ [CHR 0xE2, CHR 0x80, CHR 0x94] @ '' '' @ message err)))"

definition linearJson :: "env \<Rightarrow> (string \<Rightarrow> error + 'a) \<Rightarrow> string list \<Rightarrow> error + 'a" where
  "linearJson E parse args =
     (case linearExec E args True of Inl e \<Rightarrow> Inl e | Inr output \<Rightarrow> parse output)"

definition getTeamStates :: "env \<Rightarrow> string \<Rightarrow> (string \<rightharpoonup> string) io" where
  "getTeamStates E teamId w =
     (let cache = (case stateCache w of None \<Rightarrow> Map.empty | Some c \<Rightarrow> c);
          w1 = w\<lparr>stateCache := Some cache\<rparr> in
      case cache teamId of
        Some m \<Rightarrow> (Inr m, w1)
      | None \<Rightarrow>
          (case linearJson E (parse_states E) [''state'', ''list'', ''--team'', teamId] of
             Inl e \<Rightarrow> (Inl e, w1)
           | Inr states \<Rightarrow>
               (let m = foldl (\<lambda>m s. m(toLowerCase E (state_name s) \<mapsto> state_id s))
                          Map.empty states in
                (Inr m, w1\<lparr>stateCache := Some (cache(teamId \<mapsto> m))\<rparr>))))"

definition resolveStateId :: "env \<Rightarrow> string \<Rightarrow> string \<Rightarrow> string option io" where
  "resolveStateId E teamId stateName =
     andThen (getTeamStates E teamId) (\<lambda>states. ret (states (toLowerCase E stateName)))"

subsection \<open>Export: Linear to stories\<close>

definition parseAcceptanceCriteria :: "env \<Rightarrow> string \<Rightarrow> string list" where
  "parseAcceptanceCriteria E description =
     (let criteria = map (trim E) (match_checkbox E description) in
      if length criteria > 0 then criteria @ [''Typecheck passes'']
      else
        (let criteria2 = map (trim E) (match_numbered E description) in
         if length criteria2 > 0 then criteria2 @ [''Typecheck passes'']
         else [''Implementation matches the issue description'',
               ''Tests for the feature pass'',
               ''Typecheck passes'']))"

text \<open>
  The comparator passed to \<^verbatim>\<open>sort\<close>. The numbers are finite (they come from JSON), and
  the sign of the difference of two finite doubles is the sign of their exact difference.
\<close>

definition issue_cmp :: "LinearIssue \<Rightarrow> LinearIssue \<Rightarrow> real" where
  "issue_cmp a b =
     (let pa = (if li_priority a = 0 then 5 else li_priority a);
          pb = (if li_priority b = 0 then 5 else li_priority b) in
      if pa \<noteq> pb then pa - pb else li_sortOrder a - li_sortOrder b)"

text \<open>
  \<^verbatim>\<open>Array.prototype.sort\<close> is stable: an element moves behind another one only when the
  comparator is positive on them. With a comparator that is a total preorder the result
  of a stable sort is unique; it is computed here by insertion from the right.
\<close>

fun js_insert :: "('a \<Rightarrow> 'a \<Rightarrow> real) \<Rightarrow> 'a \<Rightarrow> 'a list \<Rightarrow> 'a list" where
  "js_insert cmp a [] = [a]"
| "js_insert cmp a (b # bs) = (if cmp a b > 0 then b # js_insert cmp a bs else a # b # bs)"

fun js_sort :: "('a \<Rightarrow> 'a \<Rightarrow> real) \<Rightarrow> 'a list \<Rightarrow> 'a list" where
  "js_sort cmp [] = []"
| "js_sort cmp (a # as) = js_insert cmp a (js_sort cmp as)"

text \<open>\<^verbatim>\<open>String(n)\<close> for a natural number, and \<^verbatim>\<open>padStart\<close> with a one-character filler.\<close>

definition digit_char :: "nat \<Rightarrow> char" where
  "digit_char d = ''0123456789'' ! d"

fun string_of_nat :: "nat \<Rightarrow> string" where
  "string_of_nat n =
     (if n < 10 then [digit_char n] else string_of_nat (n div 10) @ [digit_char (n mod 10)])"

declare string_of_nat.simps [simp del]

definition padStart :: "nat \<Rightarrow> char \<Rightarrow> string \<Rightarrow> string" where
  "padStart n c s = replicate (n - length s) c @ s"

definition story_of_issue :: "env \<Rightarrow> nat \<Rightarrow> LinearIssue \<Rightarrow> LinearStory" where
  "story_of_issue E i issue =
     (let text = (if li_description issue = [] then li_title issue else li_description issue) in
      \<lparr>ls_id = ''S'' @ padStart 2 (CHR ''0'') (string_of_nat (i + 1)),
       ls_title = ''['' @ li_identifier issue @ ''] '' @ li_title issue,
       ls_description = text,
       ls_acceptanceCriteria = parseAcceptanceCriteria E text,
       ls_linearIssueId = li_id issue,
       ls_linearIdentifier = li_identifier issue\<rparr>)"

definition mapi :: "(nat \<Rightarrow> 'a \<Rightarrow> 'b) \<Rightarrow> 'a list \<Rightarrow> 'b list" where
  "mapi f xs = map (\<lambda>(i, x). f i x) (enumerate 0 xs)"

definition exportProjectStories :: "env \<Rightarrow> string \<Rightarrow> error + LinearStory list" where
  "exportProjectStories E projectId =
     (case linearJson E (parse_issues E) [''project'', ''issues'', projectId] of
        Inl e \<Rightarrow> Inl e
      | Inr None \<Rightarrow> Inl (Error (''No issues found in Linear project '' @ projectId))
      | Inr (Some issues) \<Rightarrow>
          if length issues = 0
          then Inl (Error (''No issues found in Linear project '' @ projectId))
          else Inr (mapi (story_of_issue E) (js_sort issue_cmp issues)))"

definition exportIssueStory :: "env \<Rightarrow> string \<Rightarrow> error + LinearStory list" where
  "exportIssueStory E issueId =
     (case linearJson E (parse_issue E) [''issue'', ''get'', issueId] of
        Inl e \<Rightarrow> Inl e
      | Inr issue \<Rightarrow>
          (let text = (if li_description issue = [] then li_title issue
                       else li_description issue) in
           Inr [\<lparr>ls_id = ''S01'',
                 ls_title = ''['' @ li_identifier issue @ ''] '' @ li_title issue,
                 ls_description = text,
                 ls_acceptanceCriteria = parseAcceptanceCriteria E text,
                 ls_linearIssueId = li_id issue,
                 ls_linearIdentifier = li_identifier issue\<rparr>]))"

subsection \<open>Status sync hooks\<close>

definition moveIssue :: "env \<Rightarrow> string \<Rightarrow> string \<Rightarrow> string option \<Rightarrow> unit io" where
  "moveIssue E issueId stateName teamId =
     try_catch
       (let fallback = andThen (pure_call (linearExec E [''issue'', ''move'', issueId, stateName] False))
                         (\<lambda>_. ret ()) in
        case teamId of
          None \<Rightarrow> fallback
        | Some t \<Rightarrow>
            if t = [] then fallback
            else andThen (resolveStateId E t stateName) (\<lambda>stateId.
                   if truthy stateId
                   then andThen (pure_call (linearExec E [''issue'', ''move'', issueId,
                                   (case stateId of Some s \<Rightarrow> s | None \<Rightarrow> [])] False))
                          (\<lambda>_. ret ())
                   else fallback))
       (\<lambda>err. logger_warn (''Failed to move Linear issue '' @ issueId @ '' to '' @ stateName
                  @ '': '' @ err_to_string err))"

definition addComment :: "env \<Rightarrow> string \<Rightarrow> string \<Rightarrow> unit io" where
  "addComment E issueId body =
     try_catch
       (andThen (pure_call (linearExec E [''comment'', ''create'', issueId, ''--body'', body] False))
          (\<lambda>_. ret ()))
       (\<lambda>err. logger_warn (''Failed to comment on Linear issue '' @ issueId @ '': ''
                  @ err_to_string err))"

subsection \<open>Label management\<close>

definition ensureLabel :: "env \<Rightarrow> string \<Rightarrow> string option io" where
  "ensureLabel E name =
     try_catch
       (andThen (pure_call (linearJson E (parse_labels E) [''label'', ''list''])) (\<lambda>labels.
          case find (\<lambda>l. label_name l = name) labels of
            Some existing \<Rightarrow> ret (Some (label_id existing))
          | None \<Rightarrow>
              andThen (pure_call (linearJson E (parse_created E)
                                    [''label'', ''create'', ''--name'', name]))
                (\<lambda>created. ret (Some created))))
       (\<lambda>err. andThen (logger_warn (''Failed to ensure Linear label '' @ dq @ name @ dq @ '': ''
                          @ err_to_string err))
                 (\<lambda>_. ret None))"

section \<open>\<^verbatim>\<open>run.ts\<close>\<close>

subsection \<open>Objects with string keys\<close>

text \<open>
  A \<^verbatim>\<open>Record<string, string>\<close> is a list of key/value pairs; assigning to a key that is
  present replaces its value in place, assigning to a new key appends it. \<open>obj_spread\<close>
  is the spread \<^verbatim>\<open>{ ...base, ...src }\<close>. JavaScript lists integer-like keys first; the
  list keeps them where they were inserted, which changes the order of keys in the stored JSON
  text and nothing else.
\<close>

fun obj_set :: "string \<Rightarrow> 'v \<Rightarrow> (string \<times> 'v) list \<Rightarrow> (string \<times> 'v) list" where
  "obj_set k v [] = [(k, v)]"
| "obj_set k v ((k', v') # rest) =
     (if k' = k then (k, v) # rest else (k', v') # obj_set k v rest)"

definition obj_get :: "(string \<times> 'v) list \<Rightarrow> string \<Rightarrow> 'v option" where
  "obj_get obj k = map_of obj k"

definition obj_spread :: "(string \<times> 'v) list \<Rightarrow> (string \<times> 'v) list \<Rightarrow> (string \<times> 'v) list" where
  "obj_spread base src = foldl (\<lambda>acc (k, v). obj_set k v acc) base src"

fun str_of :: "string option \<Rightarrow> string" where
  "str_of None = []"
| "str_of (Some s) = s"

text \<open>\<^verbatim>\<open>s.split(c)\<close> for a one-character separator.\<close>

fun split_on :: "char \<Rightarrow> string \<Rightarrow> string list" where
  "split_on c [] = [[]]"
| "split_on c (x # xs) =
     (if x = c then [] # split_on c xs
      else (case split_on c xs of [] \<Rightarrow> [[x]] | p # ps \<Rightarrow> (x # p) # ps))"

subsection \<open>\<^verbatim>\<open>runWorkflow\<close>, lines 35 to 92: context, Linear pre-processing, status\<close>

definition initialContext :: "RunWorkflowParams \<Rightarrow> WorkflowSpec \<Rightarrow> (string \<times> string) list" where
  "initialContext p workflow =
     (let c = obj_spread [(''task'', taskTitle p)] (wf_context workflow) in
      if truthy (repo p) then obj_set ''repo'' (str_of (repo p)) c else c)"

definition load_backlog :: "env \<Rightarrow> string \<Rightarrow> error + LinearStory list" where
  "load_backlog E sf =
     (let invalid = Inl (Error (''Invalid --stories-from format: '' @ dq @ sf @ dq
                      @ ''. Expected '' @ dq @ ''linear:<project-id>'' @ dq @ '' or ''
                      @ dq @ ''linear-issue:<issue-id>'' @ dq @ ''.'')) in
      case take 2 (split_on (CHR '':'') sf) of
        [source, sourceId] \<Rightarrow>
          if sourceId = [] then invalid
          else if source = ''linear'' then exportProjectStories E sourceId
          else if source = ''linear-issue'' then exportIssueStory E sourceId
          else Inl (Error (''Unknown stories source: '' @ dq @ source @ dq @ ''. Supported: ''
                      @ dq @ ''linear'' @ dq @ '', '' @ dq @ ''linear-issue'' @ dq @ ''.''))
      | _ \<Rightarrow> invalid)"

definition linearMapping_json :: "LinearStory list \<Rightarrow> json" where
  "linearMapping_json linearStories =
     JArr (map (\<lambda>s. JObj [(''storyId'', JStr (ls_id s)),
                          (''linearIssueId'', JStr (ls_linearIssueId s)),
                          (''linearIdentifier'', JStr (ls_linearIdentifier s))]) linearStories)"

text \<open>The result is \<open>(linearStories, skipPlanStep, initialContext)\<close>.\<close>

definition linear_preprocess ::
  "env \<Rightarrow> RunWorkflowParams \<Rightarrow> (string \<times> string) list
     \<Rightarrow> (LinearStory list option \<times> bool \<times> (string \<times> string) list) io" where
  "linear_preprocess E p ctx =
     (if truthy (storiesFrom p) then
        andThen (pure_call (load_backlog E (str_of (storiesFrom p)))) (\<lambda>linearStories.
        andThen (ensureLabel E ''wbs/nick'') (\<lambda>labelId.
        let ctx1 = obj_set ''linear_mapping''
                     (JSON_stringify E (linearMapping_json linearStories)) ctx;
            ctx2 = obj_set ''linear_source'' (str_of (storiesFrom p)) ctx1 in
        andThen (logger_info (''Imported '' @ string_of_nat (length linearStories)
                   @ '' stories from Linear ('' @ str_of (storiesFrom p) @ '')''))
          (\<lambda>_. ret (Some linearStories, True, ctx2))))
      else ret (None, False, ctx))"

definition blank_slate :: "RunWorkflowParams \<Rightarrow> (string \<times> string) list \<Rightarrow> (string \<times> string) list" where
  "blank_slate p ctx =
     (if \<not> truthy (storiesFrom p) \<and> truthy (linearTeam p) then
        (let c1 = obj_set ''linear_blank_slate'' ''true'' ctx;
             c2 = obj_set ''linear_team_id'' (str_of (linearTeam p)) c1 in
         if truthy (linearProject p)
         then obj_set ''linear_project_id'' (str_of (linearProject p)) c2 else c2)
      else ctx)"

text \<open>Line 92. An array is truthy also when it is empty.\<close>

definition runStatus_of :: "RunWorkflowParams \<Rightarrow> LinearStory list option \<Rightarrow> bool \<Rightarrow> string" where
  "runStatus_of p linearStories skipPlanStep =
     (if approve p = Some True \<and> (linearStories \<noteq> None \<or> skipPlanStep)
      then ''paused'' else ''running'')"

subsection \<open>\<^verbatim>\<open>runWorkflow\<close>, lines 94 to 141: the transaction\<close>

definition ctx_json :: "(string \<times> string) list \<Rightarrow> json" where
  "ctx_json ctx = JObj (map (\<lambda>(k, v). (k, JStr v)) ctx)"

definition add_run :: "run_row \<Rightarrow> db \<Rightarrow> db" where
  "add_run r d = d\<lparr>runs := runs d @ [r]\<rparr>"

definition add_step :: "step_row \<Rightarrow> db \<Rightarrow> db" where
  "add_step r d = d\<lparr>steps := steps d @ [r]\<rparr>"

definition add_story :: "story_row \<Rightarrow> db \<Rightarrow> db" where
  "add_story r d = d\<lparr>stories := stories d @ [r]\<rparr>"

definition new_run_row ::
  "env \<Rightarrow> RunWorkflowParams \<Rightarrow> WorkflowSpec \<Rightarrow> string \<Rightarrow> nat \<Rightarrow> string
     \<Rightarrow> (string \<times> string) list \<Rightarrow> string \<Rightarrow> run_row" where
  "new_run_row E p workflow runId runNumber now ctx runStatus =
     \<lparr>run_id = runId, run_number = runNumber, run_workflow_id = wf_id workflow,
      run_task = taskTitle p, run_status = runStatus,
      run_context = JSON_stringify E (ctx_json ctx),
      run_notify_url = (case notifyUrl p of Some u \<Rightarrow> Some u
                        | None \<Rightarrow> wf_notifications_url workflow),
      run_created_at = now, run_updated_at = now\<rparr>"

definition new_step_row ::
  "env \<Rightarrow> WorkflowSpec \<Rightarrow> string \<Rightarrow> string \<Rightarrow> string \<Rightarrow> StepSpec \<Rightarrow> nat \<Rightarrow> string
     \<Rightarrow> step_row" where
  "new_step_row E workflow runId runStatus now step stepIndex stepUuid =
     \<lparr>sr_id = stepUuid, sr_run_id = runId, sr_step_id = step_id step,
      sr_agent_id = wf_id workflow @ ''_'' @ step_agent step,
      sr_step_index = stepIndex,
      sr_input_template = step_input step, sr_expects = step_expects step,
      sr_status = (if stepIndex = 0
                   then (if runStatus = ''paused'' then ''waiting'' else ''pending'')
                   else ''waiting''),
      sr_max_retries = (case step_max_retries step of Some n \<Rightarrow> n
                        | None \<Rightarrow> (case step_on_fail_max_retries step of Some n \<Rightarrow> n
                                    | None \<Rightarrow> 2)),
      sr_type = (case step_type step of Some t \<Rightarrow> t | None \<Rightarrow> ''single''),
      sr_loop_config = (case step_loop step of
                          Some l \<Rightarrow> if l = JNull \<or> l = JStr [] then None
                                    else Some (JSON_stringify E l)
                        | None \<Rightarrow> None),
      sr_created_at = now, sr_updated_at = now\<rparr>"

definition new_story_row :: "env \<Rightarrow> string \<Rightarrow> string \<Rightarrow> LinearStory \<Rightarrow> nat \<Rightarrow> string \<Rightarrow> story_row" where
  "new_story_row E runId now s i storyUuid =
     \<lparr>st_id = storyUuid, st_run_id = runId, st_story_index = i, st_story_id = ls_id s,
      st_title = ls_title s, st_description = ls_description s,
      st_acceptance_criteria = JSON_stringify E (JArr (map JStr (ls_acceptanceCriteria s))),
      st_status = ''pending'', st_retry_count = 0, st_max_retries = 2,
      st_created_at = now, st_updated_at = now\<rparr>"

text \<open>
  The loop of lines 107 to 124 over the remaining steps of \<^verbatim>\<open>workflow.steps\<close>; the
  result is the final value of \<^verbatim>\<open>stepIndex\<close>.
\<close>

fun insert_steps ::
  "env \<Rightarrow> WorkflowSpec \<Rightarrow> string \<Rightarrow> string \<Rightarrow> bool \<Rightarrow> string \<Rightarrow> StepSpec list \<Rightarrow> nat
     \<Rightarrow> nat io" where
  "insert_steps E workflow runId runStatus skipPlanStep now [] stepIndex w = (Inr stepIndex, w)"
| "insert_steps E workflow runId runStatus skipPlanStep now (step # rest) stepIndex w =
     (if skipPlanStep \<and> step_id step = ''plan''
      then insert_steps E workflow runId runStatus skipPlanStep now rest stepIndex w
      else
        (case andThen (randomUUID E) (\<lambda>stepUuid.
                db_run E (add_step (new_step_row E workflow runId runStatus now step
                                      stepIndex stepUuid))) w of
           (Inl e, w1) \<Rightarrow> (Inl e, w1)
         | (Inr _, w1) \<Rightarrow>
             insert_steps E workflow runId runStatus skipPlanStep now rest (stepIndex + 1) w1))"

text \<open>The loop of lines 131 to 134 over the remaining stories, from index \<open>i\<close>.\<close>

fun insert_stories :: "env \<Rightarrow> string \<Rightarrow> string \<Rightarrow> LinearStory list \<Rightarrow> nat \<Rightarrow> unit io" where
  "insert_stories E runId now [] i w = (Inr (), w)"
| "insert_stories E runId now (s # rest) i w =
     (case andThen (randomUUID E) (\<lambda>storyUuid.
             db_run E (add_story (new_story_row E runId now s i storyUuid))) w of
        (Inl e, w1) \<Rightarrow> (Inl e, w1)
      | (Inr _, w1) \<Rightarrow> insert_stories E runId now rest (i + 1) w1)"

text \<open>The body of the \<^verbatim>\<open>try\<close> block, lines 96 to 137.\<close>

definition tx_body ::
  "env \<Rightarrow> RunWorkflowParams \<Rightarrow> WorkflowSpec \<Rightarrow> string \<Rightarrow> nat \<Rightarrow> string
     \<Rightarrow> (string \<times> string) list \<Rightarrow> string \<Rightarrow> bool \<Rightarrow> LinearStory list option \<Rightarrow> unit io" where
  "tx_body E p workflow runId runNumber now ctx runStatus skipPlanStep linearStories =
     andThen (db_prepare E) (\<lambda>_.
     andThen (db_run E (add_run (new_run_row E p workflow runId runNumber now ctx runStatus))) (\<lambda>_.
     andThen (db_prepare E) (\<lambda>_.
     andThen (insert_steps E workflow runId runStatus skipPlanStep now (wf_steps workflow) 0) (\<lambda>_.
     andThen (case linearStories of
                None \<Rightarrow> ret ()
              | Some ss \<Rightarrow> andThen (db_prepare E) (\<lambda>_. insert_stories E runId now ss 0)) (\<lambda>_.
     db_commit E)))))"

text \<open>Lines 94 to 141: \<^verbatim>\<open>BEGIN\<close>, the body, and \<^verbatim>\<open>ROLLBACK\<close> with a rethrow on any error.\<close>

definition create_tx ::
  "env \<Rightarrow> RunWorkflowParams \<Rightarrow> WorkflowSpec \<Rightarrow> string \<Rightarrow> nat \<Rightarrow> string
     \<Rightarrow> (string \<times> string) list \<Rightarrow> string \<Rightarrow> bool \<Rightarrow> LinearStory list option \<Rightarrow> unit io" where
  "create_tx E p workflow runId runNumber now ctx runStatus skipPlanStep linearStories =
     andThen (db_begin E) (\<lambda>_.
     try_catch (tx_body E p workflow runId runNumber now ctx runStatus skipPlanStep linearStories)
       (\<lambda>err. andThen db_rollback (\<lambda>_. throw err)))"

subsection \<open>\<^verbatim>\<open>runWorkflow\<close>, lines 143 to 152: the crons\<close>

definition mark_failed :: "string \<Rightarrow> string \<Rightarrow> db \<Rightarrow> db" where
  "mark_failed t runId d =
     d\<lparr>runs := map (\<lambda>r. if run_id r = runId
                         then r\<lparr>run_status := ''failed'', run_updated_at := t\<rparr> else r)
                   (runs d)\<rparr>"

definition start_crons :: "env \<Rightarrow> WorkflowSpec \<Rightarrow> string \<Rightarrow> unit io" where
  "start_crons E workflow runId =
     try_catch
       (pure_call (case ensureWorkflowCrons E workflow of None \<Rightarrow> Inr () | Some e \<Rightarrow> Inl e))
       (\<lambda>err.
          andThen (db_prepare E) (\<lambda>_.
          andThen (nowISO E) (\<lambda>t.
          andThen (db_run E (mark_failed t runId)) (\<lambda>_.
          throw (Error (''Cannot start workflow run: cron setup failed. '' @ message err))))))"

subsection \<open>\<^verbatim>\<open>runWorkflow\<close>\<close>

definition visible :: "world \<Rightarrow> db" where
  "visible w = (case txn w of None \<Rightarrow> committed w | Some t \<Rightarrow> t)"

text \<open>
  Lines 28 to 92: what \<^verbatim>\<open>runWorkflow\<close> computes before it opens the transaction. The
  result is \<open>(workflow, now, runId, runNumber, initialContext, linearStories, skipPlanStep,
  runStatus)\<close>.
\<close>

definition prepare_run ::
  "env \<Rightarrow> RunWorkflowParams
     \<Rightarrow> (WorkflowSpec \<times> string \<times> string \<times> nat \<times> (string \<times> string) list
          \<times> LinearStory list option \<times> bool \<times> string) io" where
  "prepare_run E p =
     andThen (pure_call (loadWorkflowSpec E (workflowId p))) (\<lambda>workflow.
     andThen (nowISO E) (\<lambda>now.
     andThen (randomUUID E) (\<lambda>runId.
     andThen (\<lambda>w. (Inr (nextRunNumber E (visible w)), w)) (\<lambda>runNumber.
     andThen (linear_preprocess E p (initialContext p workflow))
       (\<lambda>(linearStories, skipPlanStep, ctx1).
          ret (workflow, now, runId, runNumber, blank_slate p ctx1, linearStories, skipPlanStep,
               runStatus_of p linearStories skipPlanStep))))))"

text \<open>Lines 28 to 141: up to the end of the transaction.\<close>

definition create_run :: "env \<Rightarrow> RunWorkflowParams \<Rightarrow> (WorkflowSpec \<times> string \<times> nat) io" where
  "create_run E p =
     andThen (prepare_run E p)
       (\<lambda>(workflow, now, runId, runNumber, ctx, linearStories, skipPlanStep, runStatus).
          andThen (create_tx E p workflow runId runNumber now ctx runStatus skipPlanStep
                     linearStories)
            (\<lambda>_. ret (workflow, runId, runNumber)))"

definition runWorkflow :: "env \<Rightarrow> RunWorkflowParams \<Rightarrow> RunResult io" where
  "runWorkflow E p =
     andThen (create_run E p) (\<lambda>(workflow, runId, runNumber).
     andThen (start_crons E workflow runId) (\<lambda>_.
     andThen (nowISO E) (\<lambda>ts.
     andThen (emitEvent \<lparr>ev_ts = ts, ev_event = ''run.started'', ev_runId = runId,
                         ev_workflowId = wf_id workflow\<rparr>) (\<lambda>_.
     andThen (logger_info (''Run started: '' @ dq @ taskTitle p @ dq)) (\<lambda>_.
     ret \<lparr>res_id = runId, res_runNumber = runNumber, res_workflowId = wf_id workflow,
          res_task = taskTitle p, res_status = ''running''\<rparr>)))))"

section \<open>Notions used to state the properties\<close>



text \<open>The steps that the loop of lines 107 to 124 materializes.\<close>

definition step_kept :: "bool \<Rightarrow> StepSpec \<Rightarrow> bool" where
  "step_kept skipPlanStep step = (\<not> (skipPlanStep \<and> step_id step = ''plan''))"

definition backlog_of :: "LinearStory list option \<Rightarrow> LinearStory list" where
  "backlog_of ls = (case ls of None \<Rightarrow> [] | Some ss \<Rightarrow> ss)"

definition step_rows_ok :: "string \<Rightarrow> string \<Rightarrow> bool \<Rightarrow> StepSpec list \<Rightarrow> step_row list \<Rightarrow> bool" where
  "step_rows_ok runId runStatus skipPlanStep ss rows =
     (map sr_step_index rows = [0..<length rows]
      \<and> map sr_step_id rows = map step_id (filter (step_kept skipPlanStep) ss)
      \<and> (\<forall>row\<in>set rows. sr_run_id row = runId \<and> sr_status row =
            (if sr_step_index row = 0
             then (if runStatus = ''paused'' then ''waiting'' else ''pending'')
             else ''waiting'')))"

definition story_rows_ok :: "string \<Rightarrow> LinearStory list \<Rightarrow> story_row list \<Rightarrow> bool" where
  "story_rows_ok runId ss rows =
     (map st_story_index rows = [0..<length ss]
      \<and> map st_story_id rows = map ls_id ss
      \<and> map st_title rows = map ls_title ss
      \<and> map st_description rows = map ls_description ss
      \<and> (\<forall>row\<in>set rows. st_run_id row = runId \<and> st_status row = ''pending''
            \<and> st_retry_count row = 0 \<and> st_max_retries row = 2))"

section \<open>Concrete inputs\<close>

text \<open>
  A workflow of three steps, a Linear project of three issues, and an environment in which the
  Linear CLI knows that project and the label \<^verbatim>\<open>wbs/nick\<close>; three variants of the
  environment: the fifth database statement fails, the crons cannot be set up, the Linear CLI
  cannot be started; then an environment in which the crons cannot be set up and the tenth
  database statement fails, one in which the Linear CLI lists labels and states but fails on
  everything else, and a workflow whose default context defines \<^verbatim>\<open>task\<close>.
\<close>

definition demo_issue :: "string \<Rightarrow> real \<Rightarrow> real \<Rightarrow> LinearIssue" where
  "demo_issue n pr so =
     \<lparr>li_id = ''issue-'' @ n, li_identifier = ''ENG-'' @ n, li_title = ''Title '' @ n,
      li_description = [], li_priority = pr, li_state = (''st1'', ''Todo''), li_labels = [],
      li_sortOrder = so\<rparr>"

definition demo_issues :: "LinearIssue list" where
  "demo_issues = [demo_issue ''1'' 0 1, demo_issue ''2'' 2 7, demo_issue ''3'' 2 3]"

definition demo_step :: "string \<Rightarrow> string \<Rightarrow> StepSpec" where
  "demo_step i a =
     \<lparr>step_id = i, step_agent = a, step_input = ''Do {{task}}'', step_expects = ''STATUS'',
      step_max_retries = None, step_on_fail_max_retries = None, step_type = None,
      step_loop = None\<rparr>"

definition demo_workflow :: WorkflowSpec where
  "demo_workflow =
     \<lparr>wf_id = ''feature-dev'',
      wf_steps = [demo_step ''plan'' ''planner'', demo_step ''implement'' ''developer'',
                  demo_step ''verify'' ''verifier''],
      wf_context = [(''repo'', ''/default''), (''branch'', ''main'')],
      wf_notifications_url = None\<rparr>"

definition demo_env :: env where
  "demo_env =
     \<lparr>uuid = (\<lambda>k. ''id-'' @ string_of_nat k),
      clock = (\<lambda>k. ''t'' @ string_of_nat k),
      db_fault = (\<lambda>k. None),
      nextRunNumber = (\<lambda>d. length (runs d) + 1),
      loadWorkflowSpec = (\<lambda>i. if i = ''feature-dev'' then Inr demo_workflow
                               else Inl (Error ''workflow not found'')),
      ensureWorkflowCrons = (\<lambda>w. None),
      linear_cli = (\<lambda>args. if args = [''project'', ''issues'', ''P1'', ''--json'']
                              then Inr ''issues''
                            else if args = [''label'', ''list'', ''--json''] then Inr ''labels''
                            else Inl (Error ''exit 1'')),
      parse_issues = (\<lambda>s. if s = ''issues'' then Inr (Some demo_issues)
                           else Inl (Error ''SyntaxError'')),
      parse_issue = (\<lambda>s. Inl (Error ''SyntaxError'')),
      parse_labels = (\<lambda>s. Inr [\<lparr>label_id = ''L1'', label_name = ''wbs/nick''\<rparr>]),
      parse_created = (\<lambda>s. Inl (Error ''SyntaxError'')),
      parse_states = (\<lambda>s. Inl (Error ''SyntaxError'')),
      JSON_stringify = (\<lambda>j. ''json''),
      toLowerCase = (\<lambda>s. s),
      trim = (\<lambda>s. s),
      match_checkbox = (\<lambda>s. []),
      match_numbered = (\<lambda>s. [])\<rparr>"

definition demo_params :: RunWorkflowParams where
  "demo_params =
     \<lparr>workflowId = ''feature-dev'', taskTitle = ''Add login'', notifyUrl = None,
      storiesFrom = Some ''linear:P1'', repo = Some ''/srv/app'', approve = Some True,
      linearTeam = None, linearProject = None\<rparr>"

definition world0 :: world where
  "world0 =
     \<lparr>committed = \<lparr>runs = [], steps = [], stories = []\<rparr>, txn = None, stmts = 0, uuids = 0,
      ticks = 0, log_lines = [], events = [], stateCache = None\<rparr>"

definition demo_res :: RunResult where
  "demo_res = \<lparr>res_id = ''id-0'', res_runNumber = 1, res_workflowId = ''feature-dev'',
          res_task = ''Add login'', res_status = ''running''\<rparr>"

definition demo_env_disk_full :: env where
  "demo_env_disk_full = demo_env\<lparr>db_fault := (\<lambda>k. if k = 4 then Some ''disk full'' else None)\<rparr>"

definition demo_env_no_crons :: env where
  "demo_env_no_crons = demo_env\<lparr>ensureWorkflowCrons := (\<lambda>w. Some (Error ''gateway unreachable''))\<rparr>"

definition demo_env_cli_down :: env where
  "demo_env_cli_down = demo_env\<lparr>linear_cli := (\<lambda>args. Inl (Error ''spawn linear ENOENT''))\<rparr>"

definition demo_env_update_fails :: env where
  "demo_env_update_fails =
     demo_env\<lparr>ensureWorkflowCrons := (\<lambda>w. Some (Error ''gateway unreachable'')),
               db_fault := (\<lambda>k. if k = 9 then Some ''database is locked'' else None)\<rparr>"

definition demo_env_writes_fail :: env where
  "demo_env_writes_fail =
     demo_env\<lparr>linear_cli := (\<lambda>args. if args = [''label'', ''list'', ''--json''] then Inr ''labels''
                                     else if args = [''state'', ''list'', ''--team'', ''team-1'', ''--json'']
                                       then Inr ''states''
                                     else Inl (Error ''exit 1'')),
               parse_labels := (\<lambda>s. Inr [\<lparr>label_id = ''L9'', label_name = ''bug''\<rparr>]),
               parse_states := (\<lambda>s. Inr [\<lparr>state_id = ''st-2'', state_name = ''In Progress'',
                                            state_team = ''team-1''\<rparr>])\<rparr>"

definition demo_workflow_task :: WorkflowSpec where
  "demo_workflow_task = demo_workflow\<lparr>wf_context := [(''task'', ''Default task'')]\<rparr>"

lemmas io_defs = ret_def throw_def andThen_def try_catch_def pure_call_def logger_info_def
  logger_warn_def emitEvent_def randomUUID_def nowISO_def db_run_def db_prepare_def db_begin_def
  db_commit_def db_rollback_def

lemmas hook_defs = linearExec_def linearJson_def exportProjectStories_def exportIssueStory_def
  story_of_issue_def mapi_def parseAcceptanceCriteria_def issue_cmp_def padStart_def
  digit_char_def string_of_nat.simps ensureLabel_def dq_def

lemmas run_defs = initialContext_def obj_spread_def load_backlog_def linearMapping_json_def
  linear_preprocess_def blank_slate_def runStatus_of_def ctx_json_def add_run_def add_step_def
  add_story_def new_run_row_def new_step_row_def new_story_row_def tx_body_def create_tx_def
  mark_failed_def start_crons_def visible_def prepare_run_def create_run_def runWorkflow_def

lemmas demo_defs = demo_issue_def demo_issues_def demo_step_def demo_workflow_def demo_env_def
  demo_params_def world0_def

lemmas variant_defs = demo_env_disk_full_def demo_env_no_crons_def demo_env_cli_down_def

lemmas eval_simps = demo_defs hook_defs run_defs io_defs enumerate_eq_zip Let_def upt_conv_Cons

lemmas variant2_defs = demo_env_update_fails_def demo_env_writes_fail_def demo_workflow_task_def

lemmas hook_eval = variant_defs variant2_defs demo_env_def world0_def moveIssue_def addComment_def
  ensureLabel_def resolveStateId_def getTeamStates_def linearJson_def linearExec_def io_defs Let_def
  dq_def err_to_string_def

section \<open>Lemmas about the Linear hooks\<close>

lemma try_catch_warn_ok:
  "fst (try_catch m (\<lambda>err. logger_warn (f err)) w) = Inr () "
  by (cases "m w") (auto simp: try_catch_def logger_warn_def split: sum.splits)

lemma moveIssue_ok: "fst (moveIssue E issueId stateName teamId w) = Inr ()"
  unfolding moveIssue_def by (rule try_catch_warn_ok)

lemma addComment_ok: "fst (addComment E issueId body w) = Inr ()"
  unfolding addComment_def by (rule try_catch_warn_ok)

lemma ensureLabel_ok: "\<exists>r. fst (ensureLabel E name w) = Inr r"
  unfolding ensureLabel_def
  by (auto simp: try_catch_def andThen_def pure_call_def ret_def logger_warn_def split: sum.splits option.splits prod.splits)

lemma linearExec_fail: "linear_cli E (args @ (if js then [''--json''] else [])) = Inl e \<Longrightarrow> \<exists>e'. linearExec E args js = Inl e'"
  by (simp add: linearExec_def Let_def)

lemma ensureLabel_list_fails:
  "linear_cli E [''label'', ''list'', ''--json''] = Inl e \<Longrightarrow>
   \<exists>line. ensureLabel E name w = (Inr None, w\<lparr>log_lines := log_lines w @ [line]\<rparr>)"
  unfolding ensureLabel_def
  by (auto simp: try_catch_def andThen_def pure_call_def ret_def logger_warn_def linearJson_def linearExec_def Let_def split: sum.splits option.splits prod.splits)

lemma ensureLabel_create_fails:
  "linear_cli E [''label'', ''list'', ''--json''] = Inr out \<Longrightarrow> parse_labels E (trim E out) = Inr labels \<Longrightarrow>
   find (\<lambda>l. label_name l = name) labels = None \<Longrightarrow>
   linear_cli E [''label'', ''create'', ''--name'', name, ''--json''] = Inl e \<Longrightarrow>
   \<exists>line. ensureLabel E name w = (Inr None, w\<lparr>log_lines := log_lines w @ [line]\<rparr>)"
  unfolding ensureLabel_def
  by (auto simp: try_catch_def andThen_def pure_call_def ret_def logger_warn_def linearJson_def linearExec_def Let_def split: sum.splits option.splits prod.splits)

lemma addComment_fails:
  "linear_cli E [''comment'', ''create'', issueId, ''--body'', body] = Inl e \<Longrightarrow>
   \<exists>line. addComment E issueId body w = (Inr (), w\<lparr>log_lines := log_lines w @ [line]\<rparr>)"
  unfolding addComment_def
  by (auto simp: try_catch_def andThen_def pure_call_def ret_def logger_warn_def linearJson_def linearExec_def Let_def split: sum.splits option.splits prod.splits)

lemma linearExec_down:
  assumes "\<forall>args. \<exists>e. linear_cli E args = Inl e"
  shows "\<exists>e. linearExec E args js = Inl e"
proof -
  obtain e where "linear_cli E (args @ (if js then [''--json''] else [])) = Inl e"
    using assms by blast
  then show ?thesis by (simp add: linearExec_def Let_def)
qed

lemma getTeamStates_log: "log_lines (snd (getTeamStates E t w)) = log_lines w"
  by (simp add: getTeamStates_def Let_def linearJson_def split: option.splits sum.splits)

lemma resolveStateId_log: "log_lines (snd (resolveStateId E t s w)) = log_lines w"
  using getTeamStates_log[of E t w]
  by (cases "getTeamStates E t w") (auto simp: resolveStateId_def andThen_def ret_def split: sum.splits)

lemma move_call_down:
  assumes "\<forall>args. \<exists>e. linear_cli E args = Inl e"
  shows "\<exists>e. andThen (pure_call (linearExec E args False)) (\<lambda>_. ret ()) w = (Inl e, w)"
proof -
  obtain e where "linearExec E args False = Inl e" using linearExec_down[OF assms] by blast
  then show ?thesis by (simp add: andThen_def pure_call_def)
qed

lemma moveIssue_fails:
  assumes down: "\<forall>args. \<exists>e. linear_cli E args = Inl e"
  shows "\<exists>line. log_lines (snd (moveIssue E issueId stateName teamId w)) = log_lines w @ [line]"
proof -
  let ?fb = "andThen (pure_call (linearExec E [''issue'', ''move'', issueId, stateName] False)) (\<lambda>_. ret ())"
  let ?body = "(case teamId of
          None \<Rightarrow> ?fb
        | Some t \<Rightarrow>
            if t = [] then ?fb
            else andThen (resolveStateId E t stateName) (\<lambda>stateId.
                   if truthy stateId
                   then andThen (pure_call (linearExec E [''issue'', ''move'', issueId,
                                   (case stateId of Some s \<Rightarrow> s | None \<Rightarrow> [])] False))
                          (\<lambda>_. ret ())
                   else ?fb))"
  have body: "\<exists>e w1. ?body w = (Inl e, w1) \<and> log_lines w1 = log_lines w"
  proof (cases "teamId = None \<or> teamId = Some []")
    case True
    then show ?thesis using move_call_down[OF down, of "[''issue'', ''move'', issueId, stateName]" w] by auto
  next
    case False
    then obtain t where t: "teamId = Some t" "t \<noteq> []" by (cases teamId) auto
    obtain r w1 where r: "resolveStateId E t stateName w = (r, w1)" by force
    have l: "log_lines w1 = log_lines w" using resolveStateId_log[of E t stateName w] r by simp
    show ?thesis
    proof (cases r)
      case (Inl e)
      then show ?thesis using t r l by (simp add: andThen_def)
    next
      case (Inr sid)
      obtain e where "(if truthy sid
                   then andThen (pure_call (linearExec E [''issue'', ''move'', issueId,
                                   (case sid of Some s \<Rightarrow> s | None \<Rightarrow> [])] False))
                          (\<lambda>_. ret ())
                   else ?fb) w1 = (Inl e, w1)"
        using move_call_down[OF down, of _ w1] by (cases "truthy sid") auto
      then show ?thesis using t r l Inr by (simp add: andThen_def)
    qed
  qed
  then obtain e w1 where b: "?body w = (Inl e, w1)" "log_lines w1 = log_lines w" by blast
  show ?thesis
    unfolding moveIssue_def Let_def try_catch_def using b by (simp add: logger_warn_def)
qed

lemma move_call_fails:
  assumes "linear_cli E args = Inl e"
  shows "\<exists>e'. andThen (pure_call (linearExec E args False)) (\<lambda>_. ret ()) w = (Inl e', w)"
  using assms by (simp add: andThen_def pure_call_def linearExec_def Let_def)

lemma moveIssue_fallback_fails:
  assumes "\<not> truthy teamId"
      and "linear_cli E [''issue'', ''move'', issueId, stateName] = Inl e"
  shows "\<exists>line. moveIssue E issueId stateName teamId w
           = (Inr (), w\<lparr>log_lines := log_lines w @ [line]\<rparr>)"
proof -
  obtain e' where
    "andThen (pure_call (linearExec E [''issue'', ''move'', issueId, stateName] False))
       (\<lambda>_. ret ()) w = (Inl e', w)"
    using move_call_fails[OF assms(2), of w] by (elim exE)
  then show ?thesis using assms(1)
    by (cases teamId) (auto simp: moveIssue_def Let_def try_catch_def logger_warn_def)
qed

lemma moveIssue_resolve_fails:
  assumes "truthy teamId"
      and "resolveStateId E (str_of teamId) stateName w = (Inl e, w1)"
  shows "\<exists>line. moveIssue E issueId stateName teamId w
           = (Inr (), w1\<lparr>log_lines := log_lines w1 @ [line]\<rparr>)"
  using assms
  by (cases teamId) (auto simp: moveIssue_def Let_def try_catch_def logger_warn_def andThen_def)

lemma moveIssue_move_fails:
  assumes "truthy teamId"
      and "resolveStateId E (str_of teamId) stateName w = (Inr sid, w1)"
      and "linear_cli E [''issue'', ''move'', issueId,
                         (if truthy sid then str_of sid else stateName)] = Inl e"
  shows "\<exists>line. moveIssue E issueId stateName teamId w
           = (Inr (), w1\<lparr>log_lines := log_lines w1 @ [line]\<rparr>)"
proof -
  obtain e' where c:
    "andThen (pure_call (linearExec E [''issue'', ''move'', issueId,
                         (if truthy sid then str_of sid else stateName)] False))
       (\<lambda>_. ret ()) w1 = (Inl e', w1)"
    using move_call_fails[OF assms(3), of w1] by (elim exE)
  obtain t where t: "teamId = Some t" "t \<noteq> []" using assms(1) by (cases teamId) auto
  have s: "(case sid of Some s \<Rightarrow> s | None \<Rightarrow> []) = str_of sid" by (cases sid) simp_all
  show ?thesis
  proof (cases "truthy sid")
    case True
    then show ?thesis using c t assms(2)
      by (auto simp: moveIssue_def Let_def try_catch_def logger_warn_def andThen_def[of "resolveStateId E t stateName"] s)
  next
    case False
    then show ?thesis using c t assms(2)
      by (auto simp: moveIssue_def Let_def try_catch_def logger_warn_def andThen_def[of "resolveStateId E t stateName"])
  qed
qed

lemma resolveStateId_list_fails:
  assumes "(case stateCache w of None \<Rightarrow> None | Some c \<Rightarrow> c t) = None"
      and "linear_cli E [''state'', ''list'', ''--team'', t, ''--json''] = Inl e"
  shows "\<exists>e'. fst (resolveStateId E t s w) = Inl e'"
  using assms
  by (auto simp: resolveStateId_def getTeamStates_def andThen_def linearJson_def linearExec_def
      Let_def split: option.splits)

subsection \<open>The sort of \<^verbatim>\<open>exportProjectStories\<close>\<close>













section \<open>Lemmas about \<^verbatim>\<open>runWorkflow\<close>\<close>

subsection \<open>Sequencing\<close>

lemma andThen_Inr:
  "andThen m f w = (Inr r, w') \<Longrightarrow> \<exists>a w1. m w = (Inr a, w1) \<and> f a w1 = (Inr r, w')"
  by (cases "m w") (auto simp: andThen_def split: sum.splits)

lemma andThen_cases:
  "andThen m f w = (r, w') \<Longrightarrow>
     (\<exists>e. m w = (Inl e, w') \<and> r = Inl e) \<or> (\<exists>a w1. m w = (Inr a, w1) \<and> f a w1 = (r, w'))"
  by (cases "m w") (auto simp: andThen_def split: sum.splits)

subsection \<open>Statements inside an open transaction\<close>

lemma db_run_open:
  assumes "db_run E f w = (r, w')" "txn w = Some t"
  shows "committed w' = committed w \<and> txn w' = Some (case r of Inl e \<Rightarrow> t | Inr u \<Rightarrow> f t)"
  using assms by (auto simp: db_run_def Let_def split: option.splits)

lemma db_prepare_open:
  assumes "db_prepare E w = (r, w')" "txn w = Some t"
  shows "committed w' = committed w \<and> txn w' = Some t"
  using db_run_open[of E "\<lambda>d. d" w r w' t] assms by (auto simp: db_prepare_def split: sum.splits)

lemma insert_one_open:
  assumes "andThen (randomUUID E) (\<lambda>u. db_run E (f u)) w = (r, w')" "txn w = Some t"
  shows "committed w' = committed w
         \<and> txn w' = Some (case r of Inl e \<Rightarrow> t | Inr x \<Rightarrow> f (uuid E (uuids w)) t)"
proof -
  let ?w1 = "w\<lparr>uuids := uuids w + 1\<rparr>"
  have "db_run E (f (uuid E (uuids w))) ?w1 = (r, w')"
    using assms(1) by (simp add: andThen_def randomUUID_def)
  from db_run_open[OF this, of t] assms(2) show ?thesis by simp
qed

lemma insert_steps_open:
  assumes "insert_steps E workflow runId runStatus skipPlanStep now ss k w = (r, w')"
      and "txn w = Some t"
  shows "committed w' = committed w \<and>
         (\<exists>rows t'. txn w' = Some t' \<and> runs t' = runs t \<and> stories t' = stories t
            \<and> steps t' = steps t @ rows
            \<and> (\<forall>k'. r = Inr k' \<longrightarrow>
                  map sr_step_index rows = [k..<k + length rows]
                \<and> map sr_step_id rows = map step_id (filter (step_kept skipPlanStep) ss)
                \<and> (\<forall>row\<in>set rows. sr_run_id row = runId \<and> sr_status row =
                      (if sr_step_index row = 0
                       then (if runStatus = ''paused'' then ''waiting'' else ''pending'')
                       else ''waiting''))))"
  using assms
proof (induction ss arbitrary: k w t)
  case Nil
  then show ?case by auto
next
  case (Cons step rest)
  show ?case
  proof (cases "step_kept skipPlanStep step")
    case False
    then have "insert_steps E workflow runId runStatus skipPlanStep now rest k w = (r, w')"
      using Cons.prems(1) by (simp add: step_kept_def)
    from Cons.IH[OF this Cons.prems(2)] False show ?thesis by simp
  next
    case True
    let ?mk = "\<lambda>u. add_step (new_step_row E workflow runId runStatus now step k u)"
    obtain r1 w1 where one: "andThen (randomUUID E) (\<lambda>u. db_run E (?mk u)) w = (r1, w1)"
      by force
    note o = insert_one_open[OF one Cons.prems(2)]
    show ?thesis
    proof (cases r1)
      case (Inl e)
      then have "r = Inl e" "w' = w1" using Cons.prems(1) True one by (auto simp: step_kept_def)
      then show ?thesis using o Inl by (intro conjI exI[of _ "[]"] exI[of _ t]) auto
    next
      case (Inr u)
      let ?row = "new_step_row E workflow runId runStatus now step k (uuid E (uuids w))"
      have t1: "txn w1 = Some (add_step ?row t)" and c1: "committed w1 = committed w"
        using o Inr by auto
      have rec: "insert_steps E workflow runId runStatus skipPlanStep now rest (k + 1) w1 = (r, w')"
        using Cons.prems(1) True one Inr by (auto simp: step_kept_def)
      from Cons.IH[OF rec t1] obtain rows t' where
        IH: "committed w' = committed w1" "txn w' = Some t'"
            "runs t' = runs (add_step ?row t)" "stories t' = stories (add_step ?row t)"
            "steps t' = steps (add_step ?row t) @ rows"
            "\<forall>k'. r = Inr k' \<longrightarrow>
                  map sr_step_index rows = [k + 1..<k + 1 + length rows]
                \<and> map sr_step_id rows = map step_id (filter (step_kept skipPlanStep) rest)
                \<and> (\<forall>row\<in>set rows. sr_run_id row = runId \<and> sr_status row =
                      (if sr_step_index row = 0
                       then (if runStatus = ''paused'' then ''waiting'' else ''pending'')
                       else ''waiting''))"
        by blast
      have row: "sr_step_index ?row = k" "sr_step_id ?row = step_id step" "sr_run_id ?row = runId"
        "sr_status ?row = (if k = 0 then (if runStatus = ''paused'' then ''waiting'' else ''pending'')
                       else ''waiting'')"
        by (simp_all add: new_step_row_def)
      have idx: "k # [k + 1..<k + 1 + length rows] = [k..<k + length (?row # rows)]"
        by (simp add: upt_conv_Cons del: upt_Suc)
      show ?thesis
        apply (intro conjI exI[of _ "?row # rows"] exI[of _ t'])
        using IH c1 row True idx by (auto simp: add_step_def simp del: upt_Suc)
    qed
  qed
qed

lemma insert_stories_open:
  assumes "insert_stories E runId now ss i w = (r, w')"
      and "txn w = Some t"
  shows "committed w' = committed w \<and>
         (\<exists>rows t'. txn w' = Some t' \<and> runs t' = runs t \<and> steps t' = steps t
            \<and> stories t' = stories t @ rows
            \<and> (r = Inr () \<longrightarrow>
                  map st_story_index rows = [i..<i + length ss]
                \<and> map st_story_id rows = map ls_id ss
                \<and> map st_title rows = map ls_title ss
                \<and> map st_description rows = map ls_description ss
                \<and> (\<forall>row\<in>set rows. st_run_id row = runId \<and> st_status row = ''pending''
                      \<and> st_retry_count row = 0 \<and> st_max_retries row = 2)))"
  using assms
proof (induction ss arbitrary: i w t)
  case Nil
  then show ?case by auto
next
  case (Cons s rest)
  let ?mk = "\<lambda>u. add_story (new_story_row E runId now s i u)"
  obtain r1 w1 where one: "andThen (randomUUID E) (\<lambda>u. db_run E (?mk u)) w = (r1, w1)"
    by force
  note o = insert_one_open[OF one Cons.prems(2)]
  show ?case
  proof (cases r1)
    case (Inl e)
    then have "r = Inl e" "w' = w1" using Cons.prems(1) one by auto
    then show ?thesis using o Inl by (intro conjI exI[of _ "[]"] exI[of _ t]) auto
  next
    case (Inr u)
    let ?row = "new_story_row E runId now s i (uuid E (uuids w))"
    have t1: "txn w1 = Some (add_story ?row t)" and c1: "committed w1 = committed w"
      using o Inr by auto
    have rec: "insert_stories E runId now rest (i + 1) w1 = (r, w')"
      using Cons.prems(1) one Inr by auto
    from Cons.IH[OF rec t1] obtain rows t' where
      IH: "committed w' = committed w1" "txn w' = Some t'"
          "runs t' = runs (add_story ?row t)" "steps t' = steps (add_story ?row t)"
          "stories t' = stories (add_story ?row t) @ rows"
          "r = Inr () \<longrightarrow>
                  map st_story_index rows = [i + 1..<i + 1 + length rest]
                \<and> map st_story_id rows = map ls_id rest
                \<and> map st_title rows = map ls_title rest
                \<and> map st_description rows = map ls_description rest
                \<and> (\<forall>row\<in>set rows. st_run_id row = runId \<and> st_status row = ''pending''
                      \<and> st_retry_count row = 0 \<and> st_max_retries row = 2)"
      by blast
    have row: "st_story_index ?row = i" "st_story_id ?row = ls_id s" "st_run_id ?row = runId"
      "st_status ?row = ''pending''" "st_retry_count ?row = 0" "st_max_retries ?row = 2"
      "st_title ?row = ls_title s" "st_description ?row = ls_description s"
      by (simp_all add: new_story_row_def)
    have idx: "i # [i + 1..<i + 1 + length rest] = [i..<i + length (s # rest)]"
      by (simp add: upt_conv_Cons del: upt_Suc)
    show ?thesis
      apply (intro conjI exI[of _ "?row # rows"] exI[of _ t'])
      using IH c1 row idx by (auto simp: add_story_def simp del: upt_Suc)
  qed
qed

lemma andThen_split:
  assumes "andThen m f w = (r, w')"
  obtains (fail) e where "m w = (Inl e, w')" "r = Inl e"
        | (ok) a w1 where "m w = (Inr a, w1)" "f a w1 = (r, w')"
  using andThen_cases[OF assms] by blast

lemma db_commit_open:
  assumes "db_commit E w = (r, w')" "txn w = Some t"
  shows "(\<forall>e. r = Inl e \<longrightarrow> committed w' = committed w \<and> txn w' = Some t)
       \<and> (r = Inr () \<longrightarrow> committed w' = t \<and> txn w' = None)"
  using assms by (auto simp: db_commit_def Let_def split: option.splits)

lemma story_stage_open:
  assumes "(case ls of None \<Rightarrow> ret ()
            | Some ss \<Rightarrow> andThen (db_prepare E) (\<lambda>_. insert_stories E runId now ss 0)) w = (r, w')"
      and "txn w = Some t"
  shows "committed w' = committed w \<and>
         (\<exists>rows t'. txn w' = Some t' \<and> runs t' = runs t \<and> steps t' = steps t
            \<and> stories t' = stories t @ rows
            \<and> (r = Inr () \<longrightarrow> story_rows_ok runId (backlog_of ls) rows))"
proof (cases ls)
  case None
  then show ?thesis using assms
    by (intro conjI exI[of _ "[]"] exI[of _ t]) (auto simp: ret_def story_rows_ok_def backlog_of_def)
next
  case (Some ss)
  then have "andThen (db_prepare E) (\<lambda>_. insert_stories E runId now ss 0) w = (r, w')"
    using assms(1) by simp
  then show ?thesis
  proof (cases rule: andThen_split)
    case (fail e)
    with db_prepare_open[OF fail(1) assms(2)] show ?thesis
      by (intro conjI exI[of _ "[]"] exI[of _ t]) auto
  next
    case (ok a w1)
    from db_prepare_open[OF ok(1) assms(2)] have 1: "committed w1 = committed w" "txn w1 = Some t"
      by auto
    from insert_stories_open[OF ok(2) 1(2)] 1(1) Some show ?thesis
      by (auto simp: story_rows_ok_def backlog_of_def)
  qed
qed

lemma tx_body_open:
  assumes body: "tx_body E p workflow runId runNumber now ctx runStatus skipPlanStep ls w = (r, w')"
      and t: "txn w = Some t"
  shows "(\<forall>e. r = Inl e \<longrightarrow> committed w' = committed w \<and> txn w' \<noteq> None)
       \<and> (r = Inr () \<longrightarrow> txn w' = None \<and>
            (\<exists>step_rows story_rows.
               committed w' =
                 \<lparr>runs = runs t @ [new_run_row E p workflow runId runNumber now ctx runStatus],
                  steps = steps t @ step_rows, stories = stories t @ story_rows\<rparr>
               \<and> step_rows_ok runId runStatus skipPlanStep (wf_steps workflow) step_rows
               \<and> story_rows_ok runId (backlog_of ls) story_rows))"
  using body unfolding tx_body_def
proof (cases rule: andThen_split)
  case (fail e)
  with db_prepare_open[OF fail(1) t] show ?thesis by auto
next
  case s1: (ok a1 w1)
  from db_prepare_open[OF s1(1) t] have 1: "committed w1 = committed w" "txn w1 = Some t" by auto
  let ?row = "new_run_row E p workflow runId runNumber now ctx runStatus"
  from s1(2) show ?thesis
  proof (cases rule: andThen_split)
    case (fail e)
    with db_run_open[OF fail(1) 1(2)] 1 show ?thesis by auto
  next
    case s2: (ok a2 w2)
    from db_run_open[OF s2(1) 1(2)] 1
    have 2: "committed w2 = committed w" "txn w2 = Some (add_run ?row t)" by auto
    from s2(2) show ?thesis
    proof (cases rule: andThen_split)
      case (fail e)
      with db_prepare_open[OF fail(1) 2(2)] 2 show ?thesis by auto
    next
      case s3: (ok a3 w3)
      from db_prepare_open[OF s3(1) 2(2)] 2
      have 3: "committed w3 = committed w" "txn w3 = Some (add_run ?row t)" by auto
      from s3(2) show ?thesis
      proof (cases rule: andThen_split)
        case (fail e)
        with insert_steps_open[OF fail(1) 3(2)] 3 show ?thesis by auto
      next
        case s4: (ok k4 w4)
        from insert_steps_open[OF s4(1) 3(2)] 3 obtain step_rows t4 where
          4: "committed w4 = committed w" "txn w4 = Some t4" "runs t4 = runs t @ [?row]"
             "stories t4 = stories t" "steps t4 = steps t @ step_rows"
             "step_rows_ok runId runStatus skipPlanStep (wf_steps workflow) step_rows"
          by (auto simp: add_run_def step_rows_ok_def)
        from s4(2) show ?thesis
        proof (cases rule: andThen_split)
          case (fail e)
          with story_stage_open[OF fail(1) 4(2)] 4 show ?thesis by auto
        next
          case s5: (ok a5 w5)
          from story_stage_open[OF s5(1) 4(2)] 4 obtain story_rows t5 where
            5: "committed w5 = committed w" "txn w5 = Some t5" "runs t5 = runs t @ [?row]"
               "steps t5 = steps t @ step_rows" "stories t5 = stories t @ story_rows"
               "story_rows_ok runId (backlog_of ls) story_rows"
            by auto
          have t5: "t5 = \<lparr>runs = runs t @ [?row], steps = steps t @ step_rows,
                          stories = stories t @ story_rows\<rparr>"
            using 5 by (intro db.equality) simp_all
          from db_commit_open[OF s5(2) 5(2)] 5(1) 4(6) 5(6) t5 show ?thesis
            by (cases r) auto
        qed
      qed
    qed
  qed
qed

lemma create_tx_result:
  assumes "create_tx E p workflow runId runNumber now ctx runStatus skipPlanStep ls w = (r, w')"
  shows "(\<forall>e. r = Inl e \<longrightarrow> committed w' = committed w \<and> txn w' = txn w)
       \<and> (r = Inr () \<longrightarrow> txn w = None \<and> txn w' = None \<and>
            (\<exists>step_rows story_rows.
               committed w' =
                 \<lparr>runs = runs (committed w)
                           @ [new_run_row E p workflow runId runNumber now ctx runStatus],
                  steps = steps (committed w) @ step_rows,
                  stories = stories (committed w) @ story_rows\<rparr>
               \<and> step_rows_ok runId runStatus skipPlanStep (wf_steps workflow) step_rows
               \<and> story_rows_ok runId (backlog_of ls) story_rows))"
  using assms unfolding create_tx_def
proof (cases rule: andThen_split)
  case (fail e)
  then show ?thesis by (auto simp: db_begin_def Let_def split: option.splits)
next
  case (ok a w1)
  then have 1: "txn w = None" "committed w1 = committed w" "txn w1 = Some (committed w)"
    by (auto simp: db_begin_def Let_def split: option.splits)
  obtain rb wb where b: "tx_body E p workflow runId runNumber now ctx runStatus skipPlanStep ls w1
                          = (rb, wb)" by force
  note tb = tx_body_open[OF b 1(3)]
  show ?thesis
  proof (cases rb)
    case (Inl e)
    then obtain tb' where "committed wb = committed w" "txn wb = Some tb'" using tb 1 by auto
    then show ?thesis using ok(2) b Inl 1
      by (auto simp: try_catch_def andThen_def db_rollback_def throw_def Let_def)
  next
    case (Inr u)
    then have "r = Inr ()" "w' = wb" using ok(2) b by (auto simp: try_catch_def)
    then show ?thesis using tb Inr 1 by auto
  qed
qed

subsection \<open>Context and pre-processing\<close>

lemma obj_get_set: "obj_get (obj_set k v c) k' = (if k' = k then Some v else obj_get c k')"
  by (induction c) (auto simp: obj_get_def)



lemma ensureLabel_db:
  assumes "ensureLabel E n w = (r, w')"
  shows "committed w' = committed w \<and> txn w' = txn w \<and> stmts w' = stmts w \<and> uuids w' = uuids w \<and> ticks w' = ticks w \<and> (\<exists>x. r = Inr x)"
  using assms unfolding ensureLabel_def
  by (auto simp: try_catch_def andThen_def pure_call_def ret_def logger_warn_def
      split: sum.splits option.splits prod.splits)

lemma linear_preprocess_facts:
  assumes "linear_preprocess E p ctx w = (Inr (ls, skip, ctx'), w')"
  shows "committed w' = committed w" "txn w' = txn w"
    "skip = truthy (storiesFrom p)" "(ls \<noteq> None) = truthy (storiesFrom p)"
    "truthy (storiesFrom p) \<Longrightarrow> load_backlog E (str_of (storiesFrom p)) = Inr (backlog_of ls)"
    "k \<noteq> ''linear_mapping'' \<Longrightarrow> k \<noteq> ''linear_source'' \<Longrightarrow> obj_get ctx' k = obj_get ctx k"
proof -
  have all: "committed w' = committed w \<and> txn w' = txn w
    \<and> skip = truthy (storiesFrom p) \<and> (ls \<noteq> None) = truthy (storiesFrom p)
    \<and> (truthy (storiesFrom p) \<longrightarrow> load_backlog E (str_of (storiesFrom p)) = Inr (backlog_of ls))
    \<and> (k \<noteq> ''linear_mapping'' \<longrightarrow> k \<noteq> ''linear_source'' \<longrightarrow> obj_get ctx' k = obj_get ctx k)"
  proof (cases "truthy (storiesFrom p)")
    case False
    then show ?thesis using assms by (simp add: linear_preprocess_def ret_def)
  next
    case True
    have "\<exists>backlog lab w2. load_backlog E (str_of (storiesFrom p)) = Inr backlog
        \<and> ensureLabel E ''wbs/nick'' w = (Inr lab, w2)
        \<and> ls = Some backlog \<and> skip = True
        \<and> ctx' = obj_set ''linear_source'' (str_of (storiesFrom p))
             (obj_set ''linear_mapping'' (JSON_stringify E (linearMapping_json backlog)) ctx)
        \<and> committed w' = committed w2 \<and> txn w' = txn w2"
      using assms True unfolding linear_preprocess_def
      by (auto simp: andThen_def pure_call_def logger_info_def ret_def Let_def
          split: sum.splits prod.splits)
    then obtain backlog lab w2 where
      w1: "load_backlog E (str_of (storiesFrom p)) = Inr backlog" and
      el: "ensureLabel E ''wbs/nick'' w = (Inr lab, w2)" and
      fin: "ls = Some backlog" "skip = True"
           "ctx' = obj_set ''linear_source'' (str_of (storiesFrom p))
             (obj_set ''linear_mapping'' (JSON_stringify E (linearMapping_json backlog)) ctx)"
           "committed w' = committed w2" "txn w' = txn w2"
      by blast
    have w2: "committed w2 = committed w" "txn w2 = txn w" using ensureLabel_db[OF el] by auto
    show ?thesis using True w1 w2 fin by (simp add: backlog_of_def obj_get_set)
  qed
  show "committed w' = committed w" "txn w' = txn w"
    "skip = truthy (storiesFrom p)" "(ls \<noteq> None) = truthy (storiesFrom p)"
    "truthy (storiesFrom p) \<Longrightarrow> load_backlog E (str_of (storiesFrom p)) = Inr (backlog_of ls)"
    "k \<noteq> ''linear_mapping'' \<Longrightarrow> k \<noteq> ''linear_source'' \<Longrightarrow> obj_get ctx' k = obj_get ctx k"
    using all by blast+
qed

lemma blank_slate_get:
  "k \<notin> {''linear_blank_slate'', ''linear_team_id'', ''linear_project_id''} \<Longrightarrow>
   obj_get (blank_slate p ctx) k = obj_get ctx k"
  by (auto simp: blank_slate_def Let_def obj_get_set)

lemma prepare_run_facts:
  assumes "prepare_run E p w = (Inr (wk, now, runId, rn, ctx, ls, skip, rs), w0)"
  shows "committed w0 = committed w" "txn w0 = txn w"
    "loadWorkflowSpec E (workflowId p) = Inr wk"
    "skip = truthy (storiesFrom p)" "(ls \<noteq> None) = truthy (storiesFrom p)"
    "rs = (if approve p = Some True \<and> truthy (storiesFrom p) then ''paused'' else ''running'')"
    "truthy (storiesFrom p) \<Longrightarrow> load_backlog E (str_of (storiesFrom p)) = Inr (backlog_of ls)"
    "obj_get ctx ''task'' = obj_get (initialContext p wk) ''task''"
    "obj_get ctx ''repo'' = obj_get (initialContext p wk) ''repo''"
proof -
  define wc where "wc = w\<lparr>ticks := Suc (ticks w), uuids := Suc (uuids w)\<rparr>"
  have "\<exists>ctx1. loadWorkflowSpec E (workflowId p) = Inr wk
      \<and> linear_preprocess E p (initialContext p wk) wc = (Inr (ls, skip, ctx1), w0)
      \<and> committed wc = committed w \<and> txn wc = txn w
      \<and> ctx = blank_slate p ctx1 \<and> rs = runStatus_of p ls skip"
    using assms unfolding prepare_run_def wc_def
    by (auto simp: andThen_def pure_call_def nowISO_def randomUUID_def ret_def
        split: sum.splits prod.splits)
  then obtain ctx1 where
    l: "loadWorkflowSpec E (workflowId p) = Inr wk"
    and pre: "linear_preprocess E p (initialContext p wk) wc = (Inr (ls, skip, ctx1), w0)"
    and w1: "committed wc = committed w" "txn wc = txn w"
    and fin: "ctx = blank_slate p ctx1" "rs = runStatus_of p ls skip"
    by blast
  note f = linear_preprocess_facts[OF pre]
  show "committed w0 = committed w" "txn w0 = txn w" using f w1 fin by auto
  show "loadWorkflowSpec E (workflowId p) = Inr wk" by fact
  show "skip = truthy (storiesFrom p)" "(ls \<noteq> None) = truthy (storiesFrom p)" using f by auto
  show "rs = (if approve p = Some True \<and> truthy (storiesFrom p) then ''paused'' else ''running'')"
    using fin f(3,4) by (auto simp: runStatus_of_def)
  show "truthy (storiesFrom p) \<Longrightarrow> load_backlog E (str_of (storiesFrom p)) = Inr (backlog_of ls)"
    using f(5) by simp
  show "obj_get ctx ''task'' = obj_get (initialContext p wk) ''task''"
    "obj_get ctx ''repo'' = obj_get (initialContext p wk) ''repo''"
    using f(6) fin by (simp_all add: blank_slate_get)
qed

lemma create_run_persists:
  assumes "create_run E p w = (Inr (wk, runId, rn), w1)"
  shows "\<exists>now ctx ls rs step_rows story_rows.
      loadWorkflowSpec E (workflowId p) = Inr wk
    \<and> txn w = None \<and> txn w1 = None
    \<and> committed w1 =
        \<lparr>runs = runs (committed w) @ [new_run_row E p wk runId rn now ctx rs],
         steps = steps (committed w) @ step_rows,
         stories = stories (committed w) @ story_rows\<rparr>
    \<and> rs = (if approve p = Some True \<and> truthy (storiesFrom p) then ''paused'' else ''running'')
    \<and> step_rows_ok runId rs (truthy (storiesFrom p)) (wf_steps wk) step_rows
    \<and> story_rows_ok runId (backlog_of ls) story_rows
    \<and> (ls \<noteq> None) = truthy (storiesFrom p)
    \<and> (truthy (storiesFrom p) \<longrightarrow> load_backlog E (str_of (storiesFrom p)) = Inr (backlog_of ls))
    \<and> obj_get ctx ''task'' = obj_get (initialContext p wk) ''task''
    \<and> obj_get ctx ''repo'' = obj_get (initialContext p wk) ''repo''"
proof -
  from assms obtain now ctx ls skip rs w0 where
    pr: "prepare_run E p w = (Inr (wk, now, runId, rn, ctx, ls, skip, rs), w0)"
    and tx: "create_tx E p wk runId rn now ctx rs skip ls w0 = (Inr (), w1)"
    unfolding create_run_def
    by (auto simp: ret_def dest!: andThen_Inr split: prod.splits)
  note f = prepare_run_facts[OF pr]
  from create_tx_result[OF tx] f(1,2) obtain step_rows story_rows where
    c: "txn w = None" "txn w1 = None"
       "committed w1 =
        \<lparr>runs = runs (committed w) @ [new_run_row E p wk runId rn now ctx rs],
         steps = steps (committed w) @ step_rows,
         stories = stories (committed w) @ story_rows\<rparr>"
       "step_rows_ok runId rs skip (wf_steps wk) step_rows"
       "story_rows_ok runId (backlog_of ls) story_rows"
    by auto
  show ?thesis
    apply (rule exI[of _ now], rule exI[of _ ctx], rule exI[of _ ls], rule exI[of _ rs],
        rule exI[of _ step_rows], rule exI[of _ story_rows])
    using f c by blast
qed

lemma start_crons_Inr:
  assumes "start_crons E wk runId w = (Inr u, w')"
  shows "w' = w \<and> ensureWorkflowCrons E wk = None"
  using assms unfolding start_crons_def
  by (auto simp: try_catch_def pure_call_def andThen_def throw_def split: option.splits sum.splits prod.splits)

lemma start_crons_none: "ensureWorkflowCrons E wk = None \<Longrightarrow> start_crons E wk runId w = (Inr (), w)"
  by (simp add: start_crons_def try_catch_def pure_call_def)

lemma start_crons_fails:
  assumes "ensureWorkflowCrons E wk = Some err"
  shows "\<exists>e. fst (start_crons E wk runId w) = Inl e"
  using assms unfolding start_crons_def
  by (auto simp: try_catch_def pure_call_def andThen_def throw_def split: option.splits sum.splits prod.splits)

lemma start_crons_compensates:
  assumes "ensureWorkflowCrons E wk = Some err" "txn w = None"
    "db_fault E (stmts w) = None" "db_fault E (Suc (stmts w)) = None"
  shows "start_crons E wk runId w =
     (Inl (Error (''Cannot start workflow run: cron setup failed. '' @ message err)),
      w\<lparr>stmts := stmts w + 2, ticks := ticks w + 1,
        committed := mark_failed (clock E (ticks w)) runId (committed w)\<rparr>)"
  using assms unfolding start_crons_def
  by (simp add: try_catch_def pure_call_def andThen_def throw_def db_prepare_def db_run_def
      nowISO_def Let_def)

lemma start_crons_committed:
  assumes "start_crons E wk runId w = (r, w')" "txn w = None"
  shows "txn w' = None \<and> (committed w' = committed w \<or> (\<exists>t. committed w' = mark_failed t runId (committed w)))"
  using assms unfolding start_crons_def
  by (auto simp: try_catch_def pure_call_def andThen_def throw_def db_prepare_def db_run_def
      nowISO_def Let_def split: option.splits sum.splits prod.splits)

lemma runWorkflow_success:
  assumes "runWorkflow E p w = (Inr res, w')"
  shows "\<exists>wk rn w1. create_run E p w = (Inr (wk, res_id res, rn), w1)
           \<and> committed w' = committed w1 \<and> ensureWorkflowCrons E wk = None
           \<and> res = \<lparr>res_id = res_id res, res_runNumber = rn, res_workflowId = wf_id wk,
                    res_task = taskTitle p, res_status = ''running''\<rparr>"
  using assms unfolding runWorkflow_def
  by (auto simp: ret_def nowISO_def emitEvent_def logger_info_def
      dest!: andThen_Inr start_crons_Inr split: prod.splits)

lemma linear_preprocess_db:
  assumes "linear_preprocess E p ctx w = (r, w')"
  shows "committed w' = committed w \<and> txn w' = txn w"
proof (cases "truthy (storiesFrom p)")
  case False
  then show ?thesis using assms by (auto simp: linear_preprocess_def ret_def)
next
  case True
  show ?thesis
  proof (cases "load_backlog E (str_of (storiesFrom p))")
    case (Inl e)
    then show ?thesis using assms True
      by (auto simp: linear_preprocess_def andThen_def pure_call_def)
  next
    case (Inr backlog)
    obtain r1 w1 where el: "ensureLabel E ''wbs/nick'' w = (r1, w1)" by force
    from ensureLabel_db[OF el] obtain lab where
      1: "committed w1 = committed w" "txn w1 = txn w" "r1 = Inr lab" by blast
    show ?thesis using assms True Inr el 1
      by (auto simp: linear_preprocess_def andThen_def pure_call_def logger_info_def ret_def Let_def)
  qed
qed

lemma prepare_run_db:
  assumes "prepare_run E p w = (r, w0)"
  shows "committed w0 = committed w \<and> txn w0 = txn w"
proof (cases "loadWorkflowSpec E (workflowId p)")
  case (Inl e)
  then show ?thesis using assms by (auto simp: prepare_run_def andThen_def pure_call_def)
next
  case (Inr wk)
  define wc where "wc = w\<lparr>ticks := Suc (ticks w), uuids := Suc (uuids w)\<rparr>"
  obtain r1 w1 where lp: "linear_preprocess E p (initialContext p wk) wc = (r1, w1)" by force
  from linear_preprocess_db[OF lp] have 1: "committed w1 = committed w" "txn w1 = txn w"
    by (auto simp: wc_def)
  have "w0 = w1" using assms Inr lp unfolding prepare_run_def wc_def
    by (auto simp: andThen_def pure_call_def nowISO_def randomUUID_def ret_def
        split: sum.splits prod.splits)
  then show ?thesis using 1 by simp
qed

lemma create_run_fails:
  assumes "create_run E p w = (Inl e, w1)"
  shows "committed w1 = committed w \<and> txn w1 = txn w"
proof -
  obtain r0 w0 where pr: "prepare_run E p w = (r0, w0)" by force
  note d = prepare_run_db[OF pr]
  show ?thesis
  proof (cases r0)
    case (Inl e0)
    then show ?thesis using assms pr d by (auto simp: create_run_def andThen_def)
  next
    case (Inr tup)
    obtain wk now runId rn ctx ls skip rs where
      tup: "tup = (wk, now, runId, rn, ctx, ls, skip, rs)" by (cases tup) auto
    obtain r2 w2 where tx: "create_tx E p wk runId rn now ctx rs skip ls w0 = (r2, w2)" by force
    have "r2 = Inl e \<and> w2 = w1" using assms pr Inr tup tx
      by (auto simp: create_run_def andThen_def ret_def split: sum.splits)
    then show ?thesis using create_tx_result[OF tx] d by auto
  qed
qed

lemma after_crons_committed:
  assumes "andThen (nowISO E) (\<lambda>ts.
     andThen (emitEvent (ev ts)) (\<lambda>_.
     andThen (logger_info line) (\<lambda>_. ret res))) w = (r, w')"
  shows "committed w' = committed w \<and> txn w' = txn w"
  using assms by (auto simp: andThen_def nowISO_def emitEvent_def logger_info_def ret_def)

lemma runWorkflow_persists:
  assumes "runWorkflow E p w = (Inr res, w')"
  shows "\<exists>workflow now ctx ls step_rows story_rows.
      loadWorkflowSpec E (workflowId p) = Inr workflow
    \<and> committed w' =
        \<lparr>runs = runs (committed w) @ [new_run_row E p workflow (res_id res) (res_runNumber res) now ctx
             (if approve p = Some True \<and> truthy (storiesFrom p) then ''paused'' else ''running'')],
         steps = steps (committed w) @ step_rows,
         stories = stories (committed w) @ story_rows\<rparr>
    \<and> step_rows_ok (res_id res)
         (if approve p = Some True \<and> truthy (storiesFrom p) then ''paused'' else ''running'')
         (truthy (storiesFrom p)) (wf_steps workflow) step_rows
    \<and> story_rows_ok (res_id res) (backlog_of ls) story_rows
    \<and> (ls \<noteq> None) = truthy (storiesFrom p)
    \<and> (truthy (storiesFrom p) \<longrightarrow> load_backlog E (str_of (storiesFrom p)) = Inr (backlog_of ls))
    \<and> res_status res = ''running'' \<and> res_task res = taskTitle p"
proof -
  from runWorkflow_success[OF assms] obtain wk rn w1 where
    cr: "create_run E p w = (Inr (wk, res_id res, rn), w1)" and
    c: "committed w' = committed w1" and
    res: "res = \<lparr>res_id = res_id res, res_runNumber = rn, res_workflowId = wf_id wk,
                    res_task = taskTitle p, res_status = ''running''\<rparr>"
    by blast
  have rn: "res_runNumber res = rn" "res_status res = ''running''" "res_task res = taskTitle p"
    by (subst res, simp)+
  from create_run_persists[OF cr] obtain now ctx ls rs step_rows story_rows where
    f: "loadWorkflowSpec E (workflowId p) = Inr wk"
       "committed w1 =
        \<lparr>runs = runs (committed w) @ [new_run_row E p wk (res_id res) rn now ctx rs],
         steps = steps (committed w) @ step_rows,
         stories = stories (committed w) @ story_rows\<rparr>"
       "rs = (if approve p = Some True \<and> truthy (storiesFrom p) then ''paused'' else ''running'')"
       "step_rows_ok (res_id res) rs (truthy (storiesFrom p)) (wf_steps wk) step_rows"
       "story_rows_ok (res_id res) (backlog_of ls) story_rows"
       "(ls \<noteq> None) = truthy (storiesFrom p)"
       "truthy (storiesFrom p) \<longrightarrow> load_backlog E (str_of (storiesFrom p)) = Inr (backlog_of ls)"
    by blast
  show ?thesis
    apply (rule exI[of _ wk], rule exI[of _ now], rule exI[of _ ctx], rule exI[of _ ls],
        rule exI[of _ step_rows], rule exI[of _ story_rows])
    using f(1,2,4-7) c rn unfolding f(3) by simp
qed

lemma step_status_shape:
  assumes "step_rows_ok runId rs skip ss rows"
  shows "map sr_status rows =
     (case rows of [] \<Rightarrow> []
      | first # rest \<Rightarrow> (if rs = ''paused'' then ''waiting'' else ''pending'')
                          # map (\<lambda>_. ''waiting'') rest)"
proof -
  have idx: "map sr_step_index rows = [0..<length rows]"
    and st: "\<forall>row\<in>set rows. sr_status row =
            (if sr_step_index row = 0
             then (if rs = ''paused'' then ''waiting'' else ''pending'')
             else ''waiting'')"
    using assms by (auto simp: step_rows_ok_def)
  have i: "\<And>i. i < length rows \<Longrightarrow> sr_step_index (rows ! i) = i"
    using idx by (metis nth_map nth_upt add_0)
  have "map sr_status rows =
     map (\<lambda>i. if i = 0 then (if rs = ''paused'' then ''waiting'' else ''pending'') else ''waiting'')
       [0..<length rows]"
    using st i by (auto intro!: nth_equalityI)
  then show ?thesis
    by (cases rows) (auto simp: upt_conv_Cons map_replicate_const intro!: nth_equalityI simp del: upt_Suc)
qed

subsection \<open>The concrete runs\<close>

lemma demo_run_paused:
  "\<exists>w'. runWorkflow demo_env demo_params world0 = (Inr demo_res, w')"
proof -
  have "fst (runWorkflow demo_env demo_params world0) = Inr demo_res"
    by (simp add: eval_simps demo_res_def)
  then show ?thesis by (cases "runWorkflow demo_env demo_params world0") auto
qed

lemma demo_run_running:
  "\<exists>w'. runWorkflow demo_env (demo_params\<lparr>storiesFrom := None\<rparr>) world0 = (Inr demo_res, w')"
proof -
  have "fst (runWorkflow demo_env (demo_params\<lparr>storiesFrom := None\<rparr>) world0) = Inr demo_res"
    by (simp add: eval_simps demo_res_def)
  then show ?thesis by (cases "runWorkflow demo_env (demo_params\<lparr>storiesFrom := None\<rparr>) world0") auto
qed

lemma world0_empty:
  "runs (committed world0) = []" "steps (committed world0) = []" "stories (committed world0) = []"
  by (simp_all add: world0_def)

lemma demo_load: "loadWorkflowSpec demo_env (workflowId demo_params) = Inr demo_workflow"
  by (simp add: demo_env_def demo_params_def)

section \<open>The properties\<close>

text \<open>
  C1. When \<^verbatim>\<open>runWorkflow\<close> returns, it has appended exactly one row to \<^verbatim>\<open>runs\<close>, the row
  of the new run, and the status of that row is \<^verbatim>\<open>paused\<close> if and only if the approval
  flag is set and a stories source was supplied; otherwise it is \<^verbatim>\<open>running\<close>.
\<close>

theorem run_status_paused_iff_approve_and_backlog:
  assumes "runWorkflow E p w = (Inr res, w')"
  shows "\<exists>row. runs (committed w') = runs (committed w) @ [row]
           \<and> run_id row = res_id res \<and> run_task row = taskTitle p
           \<and> run_status row =
               (if approve p = Some True \<and> truthy (storiesFrom p) then ''paused'' else ''running'')"
proof -
  from runWorkflow_persists[OF assms] obtain workflow now ctx step_rows story_rows where
    "committed w' =
        \<lparr>runs = runs (committed w) @ [new_run_row E p workflow (res_id res) (res_runNumber res) now ctx
             (if approve p = Some True \<and> truthy (storiesFrom p) then ''paused'' else ''running'')],
         steps = steps (committed w) @ step_rows,
         stories = stories (committed w) @ story_rows\<rparr>"
    by blast
  then show ?thesis by (simp add: new_run_row_def)
qed

theorem run_status_paused_iff_approve_and_backlog_witness:
  "fst (runWorkflow demo_env demo_params world0) = Inr demo_res
   \<and> map run_status (runs (committed (snd (runWorkflow demo_env demo_params world0))))
       = [''paused'']"
proof -
  obtain w' where r: "runWorkflow demo_env demo_params world0 = (Inr demo_res, w')"
    using demo_run_paused by (elim exE)
  from run_status_paused_iff_approve_and_backlog[OF r] obtain row where
    "runs (committed w') = runs (committed world0) @ [row]"
    "run_status row = (if approve demo_params = Some True \<and> truthy (storiesFrom demo_params)
                       then ''paused'' else ''running'')"
    by (elim exE conjE)
  then have "map run_status (runs (committed w')) = [''paused'']"
    by (simp add: demo_params_def world0_empty)
  then show ?thesis by (simp add: r)
qed

text \<open>
  C2. When \<^verbatim>\<open>runWorkflow\<close> returns, the step rows it has appended all belong to the new
  run; the first of them has status \<^verbatim>\<open>pending\<close> when the run row has status
  \<^verbatim>\<open>running\<close> and \<^verbatim>\<open>waiting\<close> when it has status \<^verbatim>\<open>paused\<close>, and every later one has
  status \<^verbatim>\<open>waiting\<close>.
\<close>

theorem first_step_pending_rest_waiting:
  assumes "runWorkflow E p w = (Inr res, w')"
  shows "\<exists>run_row step_rows.
           runs (committed w') = runs (committed w) @ [run_row]
         \<and> steps (committed w') = steps (committed w) @ step_rows
         \<and> (run_status run_row = ''running'' \<or> run_status run_row = ''paused'')
         \<and> map sr_run_id step_rows = replicate (length step_rows) (run_id run_row)
         \<and> map sr_status step_rows =
             (case step_rows of [] \<Rightarrow> []
              | first # rest \<Rightarrow>
                  (if run_status run_row = ''running'' then ''pending'' else ''waiting'')
                    # map (\<lambda>_. ''waiting'') rest)"
proof -
  let ?rs = "if approve p = Some True \<and> truthy (storiesFrom p) then ''paused'' else ''running''"
  from runWorkflow_persists[OF assms] obtain workflow now ctx step_rows story_rows where
    c: "committed w' =
        \<lparr>runs = runs (committed w) @ [new_run_row E p workflow (res_id res) (res_runNumber res) now ctx ?rs],
         steps = steps (committed w) @ step_rows,
         stories = stories (committed w) @ story_rows\<rparr>"
    and ok: "step_rows_ok (res_id res) ?rs (truthy (storiesFrom p)) (wf_steps workflow) step_rows"
    by blast
  let ?row = "new_run_row E p workflow (res_id res) (res_runNumber res) now ctx ?rs"
  have rs: "run_status ?row = ?rs" "run_id ?row = res_id res" by (simp_all add: new_run_row_def)
  have ids: "map sr_run_id step_rows = replicate (length step_rows) (res_id res)"
    using ok by (auto simp: step_rows_ok_def intro!: nth_equalityI)
  have sh: "map sr_status step_rows =
             (case step_rows of [] \<Rightarrow> []
              | first # rest \<Rightarrow>
                  (if ?rs = ''running'' then ''pending'' else ''waiting'')
                    # map (\<lambda>_. ''waiting'') rest)"
    using step_status_shape[OF ok] by (auto split: list.splits)
  show ?thesis
    apply (rule exI[of _ ?row], rule exI[of _ step_rows])
    unfolding rs using c ids sh by (auto split: list.splits)
qed

theorem first_step_pending_rest_waiting_witness:
  "fst (runWorkflow demo_env (demo_params\<lparr>storiesFrom := None\<rparr>) world0) = Inr demo_res
   \<and> map sr_status (steps (committed (snd (runWorkflow demo_env
            (demo_params\<lparr>storiesFrom := None\<rparr>) world0))))
       = [''pending'', ''waiting'', ''waiting'']"
proof -
  let ?R = "runWorkflow demo_env (demo_params\<lparr>storiesFrom := None\<rparr>) world0"
  obtain w' where r: "?R = (Inr demo_res, w')"
    using demo_run_running by (elim exE)
  have "map sr_step_id (steps (committed (snd ?R))) = [''plan'', ''implement'', ''verify'']
      \<and> map run_status (runs (committed (snd ?R))) = [''running'']"
    by (simp add: eval_simps)
  then have len: "map sr_step_id (steps (committed w')) = [''plan'', ''implement'', ''verify'']"
    "map run_status (runs (committed w')) = [''running'']"
    by (simp_all add: r)
  from first_step_pending_rest_waiting[OF r] obtain run_row step_rows where
    f: "runs (committed w') = runs (committed world0) @ [run_row]"
    "steps (committed w') = steps (committed world0) @ step_rows"
    "map sr_status step_rows =
             (case step_rows of [] \<Rightarrow> []
              | first # rest \<Rightarrow>
                  (if run_status run_row = ''running'' then ''pending'' else ''waiting'')
                    # map (\<lambda>_. ''waiting'') rest)"
    by (elim exE conjE)
  have "run_status run_row = ''running''" using f(1) len(2) by (simp add: world0_empty)
  moreover obtain a b c where "step_rows = [a, b, c]"
    using f(2) len(1) by (auto simp: world0_empty)
  ultimately have "map sr_status (steps (committed w')) = [''pending'', ''waiting'', ''waiting'']"
    using f(2,3) by (simp add: world0_empty)
  then show ?thesis by (simp add: r)
qed

text \<open>
  C3. Run creation is atomic. Whatever \<^verbatim>\<open>runWorkflow\<close> returns and whichever database
  statement fails, afterwards either the committed tables and the transaction state of the
  connection are unchanged, or no transaction is open and the committed tables hold exactly the
  old rows followed by the run row, one step row per materialized step and one story row per
  imported story (with the run row possibly marked \<^verbatim>\<open>failed\<close> by the compensating update
  of line 149).
\<close>

theorem run_creation_atomic:
  assumes "runWorkflow E p w = (r, w')"
  shows "(committed w' = committed w \<and> txn w' = txn w)
       \<or> (\<exists>workflow run_row step_rows story_rows full.
             loadWorkflowSpec E (workflowId p) = Inr workflow
           \<and> full = \<lparr>runs = runs (committed w) @ [run_row],
                     steps = steps (committed w) @ step_rows,
                     stories = stories (committed w) @ story_rows\<rparr>
           \<and> map sr_step_id step_rows =
               map step_id (filter (\<lambda>s. \<not> (truthy (storiesFrom p) \<and> step_id s = ''plan''))
                              (wf_steps workflow))
           \<and> (if truthy (storiesFrom p)
               then \<exists>backlog. load_backlog E (str_of (storiesFrom p)) = Inr backlog
                      \<and> map st_story_id story_rows = map ls_id backlog
               else story_rows = [])
           \<and> txn w' = None
           \<and> (committed w' = full
               \<or> (\<exists>t. committed w' = mark_failed t (run_id run_row) full)))"
proof -
  obtain r1 w1 where cr: "create_run E p w = (r1, w1)" by force
  show ?thesis
  proof (cases r1)
    case (Inl e)
    then have "w' = w1" using assms cr by (auto simp: runWorkflow_def andThen_def)
    then show ?thesis using create_run_fails[of E p w e w1] cr Inl by simp
  next
    case (Inr tup)
    obtain wk runId rn where tup: "tup = (wk, runId, rn)" by (cases tup) auto
    from create_run_persists[of E p w wk runId rn w1] cr Inr tup
    obtain now ctx ls rs step_rows story_rows where
      f: "loadWorkflowSpec E (workflowId p) = Inr wk" "txn w1 = None"
         "committed w1 =
          \<lparr>runs = runs (committed w) @ [new_run_row E p wk runId rn now ctx rs],
           steps = steps (committed w) @ step_rows,
           stories = stories (committed w) @ story_rows\<rparr>"
         "step_rows_ok runId rs (truthy (storiesFrom p)) (wf_steps wk) step_rows"
         "story_rows_ok runId (backlog_of ls) story_rows"
         "(ls \<noteq> None) = truthy (storiesFrom p)"
         "truthy (storiesFrom p) \<longrightarrow> load_backlog E (str_of (storiesFrom p)) = Inr (backlog_of ls)"
      by blast
    obtain r2 w2 where sc: "start_crons E wk runId w1 = (r2, w2)" by force
    note s = start_crons_committed[OF sc f(2)]
    have fin: "committed w' = committed w2 \<and> txn w' = txn w2"
    proof (cases r2)
      case (Inl e)
      then show ?thesis using assms cr Inr tup sc by (auto simp: runWorkflow_def andThen_def)
    next
      case r2: (Inr u)
      have "andThen (nowISO E) (\<lambda>ts.
         andThen (emitEvent \<lparr>ev_ts = ts, ev_event = ''run.started'', ev_runId = runId,
                         ev_workflowId = wf_id wk\<rparr>) (\<lambda>_.
         andThen (logger_info (''Run started: '' @ dq @ taskTitle p @ dq)) (\<lambda>_.
         ret \<lparr>res_id = runId, res_runNumber = rn, res_workflowId = wf_id wk,
          res_task = taskTitle p, res_status = ''running''\<rparr>))) w2 = (r, w')"
        using assms cr Inr tup sc r2 by (simp add: runWorkflow_def andThen_def)
      from after_crons_committed[OF this] show ?thesis .
    qed
    let ?row = "new_run_row E p wk runId rn now ctx rs"
    have rid: "run_id ?row = runId" by (simp add: new_run_row_def)
    have kept: "step_kept (truthy (storiesFrom p)) = (\<lambda>s. \<not> (truthy (storiesFrom p) \<and> step_id s = ''plan''))"
      by (simp add: step_kept_def fun_eq_iff)
    have st: "if truthy (storiesFrom p)
               then \<exists>backlog. load_backlog E (str_of (storiesFrom p)) = Inr backlog
                      \<and> map st_story_id story_rows = map ls_id backlog
               else story_rows = []"
      using f(5,6,7) by (auto simp: story_rows_ok_def backlog_of_def)
    have sid: "map sr_step_id step_rows =
               map step_id (filter (\<lambda>s. \<not> (truthy (storiesFrom p) \<and> step_id s = ''plan''))
                              (wf_steps wk))"
      using f(4) unfolding step_rows_ok_def kept by simp
    have "\<exists>full. loadWorkflowSpec E (workflowId p) = Inr wk
           \<and> full = \<lparr>runs = runs (committed w) @ [?row],
                     steps = steps (committed w) @ step_rows,
                     stories = stories (committed w) @ story_rows\<rparr>
           \<and> map sr_step_id step_rows =
               map step_id (filter (\<lambda>s. \<not> (truthy (storiesFrom p) \<and> step_id s = ''plan''))
                              (wf_steps wk))
           \<and> (if truthy (storiesFrom p)
               then \<exists>backlog. load_backlog E (str_of (storiesFrom p)) = Inr backlog
                      \<and> map st_story_id story_rows = map ls_id backlog
               else story_rows = [])
           \<and> txn w' = None
           \<and> (committed w' = full
               \<or> (\<exists>t. committed w' = mark_failed t (run_id ?row) full))"
      using f(1) sid st s fin unfolding rid f(3)[symmetric] by simp
    then show ?thesis by blast
  qed
qed

theorem run_creation_atomic_witness:
  "fst (runWorkflow demo_env_disk_full demo_params world0) = Inl (Error ''disk full'')
   \<and> committed (snd (runWorkflow demo_env_disk_full demo_params world0)) = committed world0
   \<and> txn (snd (runWorkflow demo_env_disk_full demo_params world0)) = txn world0"
proof -
  let ?R = "runWorkflow demo_env_disk_full demo_params world0"
  have ev: "fst ?R = Inl (Error ''disk full'') \<and> runs (committed (snd ?R)) = []"
    by (simp add: variant_defs eval_simps)
  obtain r w' where r: "?R = (r, w')" by force
  have nil: "runs (committed w') = []" using ev by (simp add: r)
  have nb: "\<not> (\<exists>workflow run_row step_rows story_rows full.
             loadWorkflowSpec demo_env_disk_full (workflowId demo_params) = Inr workflow
           \<and> full = \<lparr>runs = runs (committed world0) @ [run_row],
                     steps = steps (committed world0) @ step_rows,
                     stories = stories (committed world0) @ story_rows\<rparr>
           \<and> map sr_step_id step_rows =
               map step_id (filter (\<lambda>s. \<not> (truthy (storiesFrom demo_params) \<and> step_id s = ''plan''))
                              (wf_steps workflow))
           \<and> (if truthy (storiesFrom demo_params)
               then \<exists>backlog. load_backlog demo_env_disk_full (str_of (storiesFrom demo_params)) = Inr backlog
                      \<and> map st_story_id story_rows = map ls_id backlog
               else story_rows = [])
           \<and> txn w' = None
           \<and> (committed w' = full
               \<or> (\<exists>t. committed w' = mark_failed t (run_id run_row) full)))"
    using nil by (auto simp: mark_failed_def)
  have "committed w' = committed world0 \<and> txn w' = txn world0"
    using run_creation_atomic[OF r] nb
    apply -
    apply (erule disjE)
     apply assumption
    apply (erule notE)
    apply assumption
    done
  then show ?thesis using ev by (simp add: r)
qed

text \<open>
  C4. If the run was created and \<^verbatim>\<open>ensureWorkflowCrons\<close> then fails, \<^verbatim>\<open>runWorkflow\<close>
  throws and never returns a result. If moreover the database executes the two statements of
  the compensating update of line 149, the error thrown is the one built at line 151 from the
  message of the failure, and the row of the new run has status \<^verbatim>\<open>failed\<close>. Without
  that condition the property fails: the update is not guarded, so when it fails the
  database error is thrown and the run keeps its status.
\<close>

theorem cron_failure_marks_run_failed:
  assumes cr: "create_run E p w = (Inr (workflow, runId, rn), w1)"
      and cron: "ensureWorkflowCrons E workflow = Some err"
  shows "(\<exists>e. fst (runWorkflow E p w) = Inl e)
       \<and> (db_fault E (stmts w1) = None \<and> db_fault E (Suc (stmts w1)) = None \<longrightarrow>
            fst (runWorkflow E p w)
              = Inl (Error (''Cannot start workflow run: cron setup failed. '' @ message err))
          \<and> committed (snd (runWorkflow E p w))
              = mark_failed (clock E (ticks w1)) runId (committed w1)
          \<and> (\<exists>row\<in>set (runs (committed (snd (runWorkflow E p w)))).
                 run_id row = runId \<and> run_status row = ''failed''))"
proof (intro conjI impI)
  obtain r2 w2 where sc: "start_crons E workflow runId w1 = (r2, w2)" by force
  from start_crons_fails[OF cron, of runId w1] sc obtain e where "r2 = Inl e" by auto
  then show "\<exists>e. fst (runWorkflow E p w) = Inl e"
    using cr sc by (simp add: runWorkflow_def andThen_def)
next
  assume nf: "db_fault E (stmts w1) = None \<and> db_fault E (Suc (stmts w1)) = None"
  from create_run_persists[OF cr] obtain now ctx rs step_rows story_rows where
    f: "txn w1 = None"
       "committed w1 =
          \<lparr>runs = runs (committed w) @ [new_run_row E p workflow runId rn now ctx rs],
           steps = steps (committed w) @ step_rows,
           stories = stories (committed w) @ story_rows\<rparr>"
    by blast
  note sc = start_crons_compensates[OF cron f(1), of runId] 
  have rw: "runWorkflow E p w =
     (Inl (Error (''Cannot start workflow run: cron setup failed. '' @ message err)),
      w1\<lparr>stmts := stmts w1 + 2, ticks := ticks w1 + 1,
        committed := mark_failed (clock E (ticks w1)) runId (committed w1)\<rparr>)"
    using cr sc nf by (simp add: runWorkflow_def andThen_def)
  show "fst (runWorkflow E p w)
              = Inl (Error (''Cannot start workflow run: cron setup failed. '' @ message err))"
    by (simp add: rw)
  show "committed (snd (runWorkflow E p w))
              = mark_failed (clock E (ticks w1)) runId (committed w1)"
    by (simp add: rw)
  show "\<exists>row\<in>set (runs (committed (snd (runWorkflow E p w)))).
                 run_id row = runId \<and> run_status row = ''failed''"
    unfolding rw by (simp add: f(2) mark_failed_def new_run_row_def)
qed

theorem cron_failure_marks_run_failed_witness:
  "fst (create_run demo_env_no_crons demo_params world0) = Inr (demo_workflow, ''id-0'', 1)
   \<and> ensureWorkflowCrons demo_env_no_crons demo_workflow = Some (Error ''gateway unreachable'')
   \<and> fst (runWorkflow demo_env_no_crons demo_params world0)
       = Inl (Error ''Cannot start workflow run: cron setup failed. gateway unreachable'')
   \<and> (\<exists>row\<in>set (runs (committed (snd (runWorkflow demo_env_no_crons demo_params world0)))).
         run_id row = ''id-0'' \<and> run_status row = ''failed'')"
proof -
  have ev: "fst (create_run demo_env_no_crons demo_params world0) = Inr (demo_workflow, ''id-0'', 1)"
    by (simp add: variant_defs eval_simps)
  then obtain w1 where
    cr: "create_run demo_env_no_crons demo_params world0 = (Inr (demo_workflow, ''id-0'', 1), w1)"
    by (cases "create_run demo_env_no_crons demo_params world0") auto
  have cron: "ensureWorkflowCrons demo_env_no_crons demo_workflow = Some (Error ''gateway unreachable'')"
    by (simp add: variant_defs demo_env_def)
  have nf: "db_fault demo_env_no_crons (stmts w1) = None \<and> db_fault demo_env_no_crons (Suc (stmts w1)) = None"
    by (simp add: variant_defs demo_env_def)
  note th = cron_failure_marks_run_failed[OF cr cron, THEN conjunct2, THEN mp, OF nf]
  have "fst (runWorkflow demo_env_no_crons demo_params world0)
              = Inl (Error (''Cannot start workflow run: cron setup failed. '' @ message (Error ''gateway unreachable'')))"
    by (rule th[THEN conjunct1])
  moreover have "\<exists>row\<in>set (runs (committed (snd (runWorkflow demo_env_no_crons demo_params world0)))).
                 run_id row = ''id-0'' \<and> run_status row = ''failed''"
    by (rule th[THEN conjunct2, THEN conjunct2])
  ultimately show ?thesis using ev cron by simp
qed

theorem cron_failure_update_fails_counterexample:
  "ensureWorkflowCrons demo_env_update_fails demo_workflow = Some (Error ''gateway unreachable'')
   \<and> fst (create_run demo_env_update_fails (demo_params\<lparr>storiesFrom := None\<rparr>) world0)
       = Inr (demo_workflow, ''id-0'', 1)
   \<and> fst (runWorkflow demo_env_update_fails (demo_params\<lparr>storiesFrom := None\<rparr>) world0)
       = Inl (Error ''database is locked'')
   \<and> map run_status (runs (committed (snd (runWorkflow demo_env_update_fails
            (demo_params\<lparr>storiesFrom := None\<rparr>) world0)))) = [''running'']"
  by (simp add: variant2_defs eval_simps)




text \<open>
  C6. When \<^verbatim>\<open>runWorkflow\<close> returns and a stories source was supplied, the story rows it has
  appended are the stories of the imported backlog in backlog order, with position index
  \<open>0, 1, 2, \<dots>\<close>, status \<^verbatim>\<open>pending\<close>, retry count 0 and the same retry ceiling 2 for
  every story.
\<close>

theorem stories_persisted_in_backlog_order:
  assumes "runWorkflow E p w = (Inr res, w')" and "truthy (storiesFrom p)"
  shows "\<exists>backlog story_rows.
           load_backlog E (str_of (storiesFrom p)) = Inr backlog
         \<and> stories (committed w') = stories (committed w) @ story_rows
         \<and> map st_story_id story_rows = map ls_id backlog
         \<and> map st_title story_rows = map ls_title backlog
         \<and> map st_description story_rows = map ls_description backlog
         \<and> map st_story_index story_rows = [0..<length backlog]
         \<and> map st_run_id story_rows = replicate (length backlog) (res_id res)
         \<and> map st_status story_rows = replicate (length backlog) ''pending''
         \<and> map st_retry_count story_rows = replicate (length backlog) 0
         \<and> map st_max_retries story_rows = replicate (length backlog) 2"
proof -
  let ?rs = "if approve p = Some True \<and> truthy (storiesFrom p) then ''paused'' else ''running''"
  from runWorkflow_persists[OF assms(1)] assms(2) obtain workflow now ctx ls step_rows story_rows where
    c: "committed w' =
        \<lparr>runs = runs (committed w) @ [new_run_row E p workflow (res_id res) (res_runNumber res) now ctx ?rs],
         steps = steps (committed w) @ step_rows,
         stories = stories (committed w) @ story_rows\<rparr>"
    and ok: "story_rows_ok (res_id res) (backlog_of ls) story_rows"
    and lb: "load_backlog E (str_of (storiesFrom p)) = Inr (backlog_of ls)"
    by blast
  have len: "length story_rows = length (backlog_of ls)"
    using ok by (metis story_rows_ok_def length_map)
  have "map st_run_id story_rows = replicate (length (backlog_of ls)) (res_id res)"
    "map st_status story_rows = replicate (length (backlog_of ls)) ''pending''"
    "map st_retry_count story_rows = replicate (length (backlog_of ls)) 0"
    "map st_max_retries story_rows = replicate (length (backlog_of ls)) 2"
    using ok len by (auto simp: story_rows_ok_def intro!: nth_equalityI)
  then show ?thesis
    apply (intro exI[of _ "backlog_of ls"] exI[of _ story_rows])
    using c ok lb unfolding story_rows_ok_def by simp
qed

theorem stories_persisted_in_backlog_order_witness:
  "fst (runWorkflow demo_env demo_params world0) = Inr demo_res
   \<and> truthy (storiesFrom demo_params)
   \<and> map st_story_id (stories (committed (snd (runWorkflow demo_env demo_params world0))))
       = [''S01'', ''S02'', ''S03'']
   \<and> map st_story_index (stories (committed (snd (runWorkflow demo_env demo_params world0))))
       = [0, 1, 2]
   \<and> map st_status (stories (committed (snd (runWorkflow demo_env demo_params world0))))
       = [''pending'', ''pending'', ''pending'']
   \<and> map st_retry_count (stories (committed (snd (runWorkflow demo_env demo_params world0))))
       = [0, 0, 0]
   \<and> map st_max_retries (stories (committed (snd (runWorkflow demo_env demo_params world0))))
       = [2, 2, 2]"
proof -
  obtain w' where r: "runWorkflow demo_env demo_params world0 = (Inr demo_res, w')"
    using demo_run_paused by (elim exE)
  have t: "truthy (storiesFrom demo_params)" by (simp add: demo_params_def)
  from stories_persisted_in_backlog_order[OF r t] obtain backlog story_rows where
    f: "load_backlog demo_env (str_of (storiesFrom demo_params)) = Inr backlog"
       "stories (committed w') = stories (committed world0) @ story_rows"
       "map st_story_id story_rows = map ls_id backlog"
       "map st_story_index story_rows = [0..<length backlog]"
       "map st_status story_rows = replicate (length backlog) ''pending''"
       "map st_retry_count story_rows = replicate (length backlog) 0"
       "map st_max_retries story_rows = replicate (length backlog) 2"
    by (elim exE conjE)
  have "map ls_id (projr (load_backlog demo_env (str_of (storiesFrom demo_params))))
          = [''S01'', ''S02'', ''S03'']"
    by (simp add: eval_simps)
  then have ids: "map ls_id backlog = [''S01'', ''S02'', ''S03'']" by (simp add: f(1))
  then have len: "length backlog = 3"
    by (metis length_map length_Cons list.size(3) numeral_3_eq_3)
  show ?thesis using t f(2-7) ids unfolding len
    by (simp add: r world0_empty upt_conv_Cons eval_nat_numeral)
qed

text \<open>
  C7. When \<^verbatim>\<open>runWorkflow\<close> returns, the step rows it has appended are the steps of the
  specification in order, without the step \<^verbatim>\<open>plan\<close> when a stories source was supplied,
  and their position indices are \<open>0, 1, 2, \<dots>\<close> without a gap.
\<close>

theorem step_indices_contiguous:
  assumes "runWorkflow E p w = (Inr res, w')"
  shows "\<exists>workflow step_rows.
           loadWorkflowSpec E (workflowId p) = Inr workflow
         \<and> steps (committed w') = steps (committed w) @ step_rows
         \<and> map sr_step_index step_rows = [0..<length step_rows]
         \<and> map sr_step_id step_rows =
             map step_id (filter (\<lambda>s. \<not> (truthy (storiesFrom p) \<and> step_id s = ''plan''))
                            (wf_steps workflow))"
proof -
  let ?rs = "if approve p = Some True \<and> truthy (storiesFrom p) then ''paused'' else ''running''"
  from runWorkflow_persists[OF assms] obtain workflow now ctx step_rows story_rows where
    l: "loadWorkflowSpec E (workflowId p) = Inr workflow" and
    c: "committed w' =
        \<lparr>runs = runs (committed w) @ [new_run_row E p workflow (res_id res) (res_runNumber res) now ctx ?rs],
         steps = steps (committed w) @ step_rows,
         stories = stories (committed w) @ story_rows\<rparr>"
    and ok: "step_rows_ok (res_id res) ?rs (truthy (storiesFrom p)) (wf_steps workflow) step_rows"
    by blast
  have f: "step_kept (truthy (storiesFrom p)) = (\<lambda>s. \<not> (truthy (storiesFrom p) \<and> step_id s = ''plan''))"
    by (simp add: step_kept_def fun_eq_iff)
  show ?thesis
    apply (rule exI[of _ workflow], rule exI[of _ step_rows])
    using l c ok unfolding step_rows_ok_def f by simp
qed

theorem step_indices_contiguous_witness:
  "fst (runWorkflow demo_env demo_params world0) = Inr demo_res
   \<and> map sr_step_index (steps (committed (snd (runWorkflow demo_env demo_params world0)))) = [0, 1]
   \<and> map sr_step_id (steps (committed (snd (runWorkflow demo_env demo_params world0))))
       = [''implement'', ''verify'']"
proof -
  obtain w' where r: "runWorkflow demo_env demo_params world0 = (Inr demo_res, w')"
    using demo_run_paused by (elim exE)
  from step_indices_contiguous[OF r] obtain workflow step_rows where
    f: "loadWorkflowSpec demo_env (workflowId demo_params) = Inr workflow"
       "steps (committed w') = steps (committed world0) @ step_rows"
       "map sr_step_index step_rows = [0..<length step_rows]"
       "map sr_step_id step_rows =
             map step_id (filter (\<lambda>s. \<not> (truthy (storiesFrom demo_params) \<and> step_id s = ''plan''))
                            (wf_steps workflow))"
    by (elim exE conjE)
  have wk: "workflow = demo_workflow" using f(1) demo_load by simp
  have ids: "map sr_step_id step_rows = [''implement'', ''verify'']"
    using f(4) unfolding wk by (simp add: demo_workflow_def demo_step_def demo_params_def)
  then have "length step_rows = 2" by (metis length_map length_Cons list.size(3) numeral_2_eq_2)
  then have "map sr_step_index step_rows = [0, 1]"
    using f(3) by (simp add: upt_conv_Cons)
  then show ?thesis using ids f(2) by (simp add: r world0_empty)
qed

text \<open>
  C8. \<^verbatim>\<open>moveIssue\<close>, \<^verbatim>\<open>addComment\<close> and \<^verbatim>\<open>ensureLabel\<close> never throw, in any
  environment. Whenever a Linear CLI call that one of them makes fails, it returns after
  logging one warning, and \<^verbatim>\<open>ensureLabel\<close> returns \<^verbatim>\<open>null\<close>: for
  \<^verbatim>\<open>ensureLabel\<close> the call \<^verbatim>\<open>label list\<close>, or \<^verbatim>\<open>label create\<close> after a list without
  the label; for \<^verbatim>\<open>addComment\<close> the call \<^verbatim>\<open>comment create\<close>; for \<^verbatim>\<open>moveIssue\<close>
  the call \<^verbatim>\<open>issue move\<close> by state name when no team is given, and with a team the call
  \<^verbatim>\<open>state list\<close> (made when the team's states are not cached), any other failure of the
  state resolution, and the call \<^verbatim>\<open>issue move\<close> with the resolved state id or, when there
  is none, with the state name.
\<close>

theorem linear_sync_failures_recovered:
  "fst (moveIssue E issueId stateName teamId w) = Inr ()
   \<and> fst (addComment E issueId body w) = Inr ()
   \<and> (\<exists>r. fst (ensureLabel E name w) = Inr r)
   \<and> ((\<exists>e. linear_cli E [''label'', ''list'', ''--json''] = Inl e) \<longrightarrow>
        (\<exists>line. ensureLabel E name w = (Inr None, w\<lparr>log_lines := log_lines w @ [line]\<rparr>)))
   \<and> ((\<exists>out labels e. linear_cli E [''label'', ''list'', ''--json''] = Inr out
           \<and> parse_labels E (trim E out) = Inr labels
           \<and> find (\<lambda>l. label_name l = name) labels = None
           \<and> linear_cli E [''label'', ''create'', ''--name'', name, ''--json''] = Inl e) \<longrightarrow>
        (\<exists>line. ensureLabel E name w = (Inr None, w\<lparr>log_lines := log_lines w @ [line]\<rparr>)))
   \<and> ((\<exists>e. linear_cli E [''comment'', ''create'', issueId, ''--body'', body] = Inl e) \<longrightarrow>
        (\<exists>line. addComment E issueId body w = (Inr (), w\<lparr>log_lines := log_lines w @ [line]\<rparr>)))
   \<and> ((\<forall>args. \<exists>e. linear_cli E args = Inl e) \<longrightarrow>
        (\<exists>line. log_lines (snd (moveIssue E issueId stateName teamId w)) = log_lines w @ [line]))
   \<and> (\<not> truthy teamId \<and> (\<exists>e. linear_cli E [''issue'', ''move'', issueId, stateName] = Inl e) \<longrightarrow>
        (\<exists>line. moveIssue E issueId stateName teamId w
                  = (Inr (), w\<lparr>log_lines := log_lines w @ [line]\<rparr>)))
   \<and> (truthy teamId
        \<and> (case stateCache w of None \<Rightarrow> None | Some c \<Rightarrow> c (str_of teamId)) = None
        \<and> (\<exists>e. linear_cli E [''state'', ''list'', ''--team'', str_of teamId, ''--json''] = Inl e) \<longrightarrow>
        (\<exists>e. fst (resolveStateId E (str_of teamId) stateName w) = Inl e))
   \<and> (truthy teamId \<and> (\<exists>e. fst (resolveStateId E (str_of teamId) stateName w) = Inl e) \<longrightarrow>
        (\<exists>line. moveIssue E issueId stateName teamId w
                  = (Inr (), (snd (resolveStateId E (str_of teamId) stateName w))
                       \<lparr>log_lines := log_lines w @ [line]\<rparr>)))
   \<and> (truthy teamId
        \<and> (\<exists>sid e. fst (resolveStateId E (str_of teamId) stateName w) = Inr sid
              \<and> linear_cli E [''issue'', ''move'', issueId,
                               (if truthy sid then str_of sid else stateName)] = Inl e) \<longrightarrow>
        (\<exists>line. moveIssue E issueId stateName teamId w
                  = (Inr (), (snd (resolveStateId E (str_of teamId) stateName w))
                       \<lparr>log_lines := log_lines w @ [line]\<rparr>)))"
proof (intro conjI impI)
  show "fst (moveIssue E issueId stateName teamId w) = Inr ()" by (rule moveIssue_ok)
  show "fst (addComment E issueId body w) = Inr ()" by (rule addComment_ok)
  show "\<exists>r. fst (ensureLabel E name w) = Inr r" by (rule ensureLabel_ok)
next
  assume "\<exists>e. linear_cli E [''label'', ''list'', ''--json''] = Inl e"
  then show "\<exists>line. ensureLabel E name w = (Inr None, w\<lparr>log_lines := log_lines w @ [line]\<rparr>)"
    by (elim exE) (rule ensureLabel_list_fails)
next
  assume "\<exists>out labels e. linear_cli E [''label'', ''list'', ''--json''] = Inr out
           \<and> parse_labels E (trim E out) = Inr labels
           \<and> find (\<lambda>l. label_name l = name) labels = None
           \<and> linear_cli E [''label'', ''create'', ''--name'', name, ''--json''] = Inl e"
  then show "\<exists>line. ensureLabel E name w = (Inr None, w\<lparr>log_lines := log_lines w @ [line]\<rparr>)"
    by (elim exE conjE) (rule ensureLabel_create_fails)
next
  assume "\<exists>e. linear_cli E [''comment'', ''create'', issueId, ''--body'', body] = Inl e"
  then show "\<exists>line. addComment E issueId body w = (Inr (), w\<lparr>log_lines := log_lines w @ [line]\<rparr>)"
    by (elim exE) (rule addComment_fails)
next
  assume "\<forall>args. \<exists>e. linear_cli E args = Inl e"
  then show "\<exists>line. log_lines (snd (moveIssue E issueId stateName teamId w)) = log_lines w @ [line]"
    by (rule moveIssue_fails)
next
  assume "\<not> truthy teamId \<and> (\<exists>e. linear_cli E [''issue'', ''move'', issueId, stateName] = Inl e)"
  then show "\<exists>line. moveIssue E issueId stateName teamId w
                  = (Inr (), w\<lparr>log_lines := log_lines w @ [line]\<rparr>)"
    by (elim exE conjE) (rule moveIssue_fallback_fails)
next
  assume "truthy teamId
        \<and> (case stateCache w of None \<Rightarrow> None | Some c \<Rightarrow> c (str_of teamId)) = None
        \<and> (\<exists>e. linear_cli E [''state'', ''list'', ''--team'', str_of teamId, ''--json''] = Inl e)"
  then show "\<exists>e. fst (resolveStateId E (str_of teamId) stateName w) = Inl e"
    by (elim exE conjE) (rule resolveStateId_list_fails)
next
  assume a: "truthy teamId \<and> (\<exists>e. fst (resolveStateId E (str_of teamId) stateName w) = Inl e)"
  then obtain e where e: "fst (resolveStateId E (str_of teamId) stateName w) = Inl e"
    by (elim exE conjE)
  obtain w1 where r: "resolveStateId E (str_of teamId) stateName w = (Inl e, w1)"
    using e by (cases "resolveStateId E (str_of teamId) stateName w") simp
  have l: "log_lines w1 = log_lines w"
    using resolveStateId_log[of E "str_of teamId" stateName w] by (simp add: r)
  from a have t: "truthy teamId" by (rule conjunct1)
  show "\<exists>line. moveIssue E issueId stateName teamId w
                  = (Inr (), (snd (resolveStateId E (str_of teamId) stateName w))
                       \<lparr>log_lines := log_lines w @ [line]\<rparr>)"
    using moveIssue_resolve_fails[OF t r, of issueId] by (simp add: r l)
next
  assume a: "truthy teamId
        \<and> (\<exists>sid e. fst (resolveStateId E (str_of teamId) stateName w) = Inr sid
              \<and> linear_cli E [''issue'', ''move'', issueId,
                               (if truthy sid then str_of sid else stateName)] = Inl e)"
  then obtain sid e where e: "fst (resolveStateId E (str_of teamId) stateName w) = Inr sid"
    and c: "linear_cli E [''issue'', ''move'', issueId,
                               (if truthy sid then str_of sid else stateName)] = Inl e"
    by (elim exE conjE)
  obtain w1 where r: "resolveStateId E (str_of teamId) stateName w = (Inr sid, w1)"
    using e by (cases "resolveStateId E (str_of teamId) stateName w") simp
  have l: "log_lines w1 = log_lines w"
    using resolveStateId_log[of E "str_of teamId" stateName w] by (simp add: r)
  from a have t: "truthy teamId" by (rule conjunct1)
  show "\<exists>line. moveIssue E issueId stateName teamId w
                  = (Inr (), (snd (resolveStateId E (str_of teamId) stateName w))
                       \<lparr>log_lines := log_lines w @ [line]\<rparr>)"
    using moveIssue_move_fails[OF t r c] by (simp add: r l)
qed

theorem linear_sync_failures_recovered_witness:
  "(\<forall>args. \<exists>e. linear_cli demo_env_cli_down args = Inl e)
   \<and> fst (moveIssue demo_env_cli_down ''issue-1'' ''In Progress'' (Some ''team-1'') world0) = Inr ()
   \<and> fst (addComment demo_env_cli_down ''issue-1'' ''started'' world0) = Inr ()
   \<and> fst (ensureLabel demo_env_cli_down ''wbs/nick'' world0) = Inr None
   \<and> length (log_lines (snd (moveIssue demo_env_cli_down ''issue-1'' ''In Progress''
                                 (Some ''team-1'') world0))) = 1
   \<and> length (log_lines (snd (moveIssue demo_env_cli_down ''issue-1'' ''In Progress''
                                 None world0))) = 1
   \<and> length (log_lines (snd (addComment demo_env_cli_down ''issue-1'' ''started'' world0))) = 1
   \<and> fst (ensureLabel demo_env_writes_fail ''wbs/nick'' world0) = Inr None
   \<and> length (log_lines (snd (ensureLabel demo_env_writes_fail ''wbs/nick'' world0))) = 1
   \<and> fst (resolveStateId demo_env_writes_fail ''team-1'' ''In Progress'' world0)
       = Inr (Some ''st-2'')
   \<and> length (log_lines (snd (moveIssue demo_env_writes_fail ''issue-1'' ''In Progress''
                                 (Some ''team-1'') world0))) = 1"
proof -
  let ?D = demo_env_cli_down and ?F = demo_env_writes_fail
  have l0: "log_lines world0 = []" by (simp add: world0_def)
  have down: "\<forall>args. \<exists>e. linear_cli ?D args = Inl e"
    by (simp add: demo_env_cli_down_def demo_env_def)
  note th = linear_sync_failures_recovered[of ?D "''issue-1''" "''In Progress''" "Some ''team-1''" world0
      "''started''" "''wbs/nick''"]
  note tn = linear_sync_failures_recovered[of ?D "''issue-1''" "''In Progress''" None world0
      "''started''" "''wbs/nick''"]
  note tf = linear_sync_failures_recovered[of ?F "''issue-1''" "''In Progress''" "Some ''team-1''" world0
      "''started''" "''wbs/nick''"]
  have 1: "fst (moveIssue ?D ''issue-1'' ''In Progress'' (Some ''team-1'') world0) = Inr ()"
    by (rule th[THEN conjunct1])
  have 2: "fst (addComment ?D ''issue-1'' ''started'' world0) = Inr ()"
    by (rule th[THEN conjunct2, THEN conjunct1])
  have h4: "\<exists>e. linear_cli ?D [''label'', ''list'', ''--json''] = Inl e"
    using down by (rule spec)
  have "\<exists>line. ensureLabel ?D ''wbs/nick'' world0
           = (Inr None, world0\<lparr>log_lines := log_lines world0 @ [line]\<rparr>)"
    by (rule th[THEN conjunct2, THEN conjunct2, THEN conjunct2, THEN conjunct1, THEN mp, OF h4])
  then have 3: "fst (ensureLabel ?D ''wbs/nick'' world0) = Inr None"
    by (elim exE) simp
  have h9: "truthy (Some ''team-1'')
        \<and> (case stateCache world0 of None \<Rightarrow> None | Some c \<Rightarrow> c (str_of (Some ''team-1''))) = None
        \<and> (\<exists>e. linear_cli ?D [''state'', ''list'', ''--team'', str_of (Some ''team-1''), ''--json''] = Inl e)"
    by (simp add: demo_env_cli_down_def demo_env_def world0_def)
  have r9: "\<exists>e. fst (resolveStateId ?D (str_of (Some ''team-1'')) ''In Progress'' world0) = Inl e"
    by (rule th[THEN conjunct2, THEN conjunct2, THEN conjunct2, THEN conjunct2, THEN conjunct2,
          THEN conjunct2, THEN conjunct2, THEN conjunct2, THEN conjunct1, THEN mp, OF h9])
  have h10: "truthy (Some ''team-1'')
       \<and> (\<exists>e. fst (resolveStateId ?D (str_of (Some ''team-1'')) ''In Progress'' world0) = Inl e)"
    using r9 by simp
  have "\<exists>line. moveIssue ?D ''issue-1'' ''In Progress'' (Some ''team-1'') world0
                  = (Inr (), (snd (resolveStateId ?D (str_of (Some ''team-1'')) ''In Progress'' world0))
                       \<lparr>log_lines := log_lines world0 @ [line]\<rparr>)"
    by (rule th[THEN conjunct2, THEN conjunct2, THEN conjunct2, THEN conjunct2, THEN conjunct2,
          THEN conjunct2, THEN conjunct2, THEN conjunct2, THEN conjunct2, THEN conjunct1,
          THEN mp, OF h10])
  then have 4: "length (log_lines (snd (moveIssue ?D ''issue-1'' ''In Progress''
                                 (Some ''team-1'') world0))) = 1"
    by (elim exE) (simp add: l0)
  have h8: "\<not> truthy None \<and> (\<exists>e. linear_cli ?D [''issue'', ''move'', ''issue-1'', ''In Progress''] = Inl e)"
    by (simp add: demo_env_cli_down_def demo_env_def)
  have "\<exists>line. moveIssue ?D ''issue-1'' ''In Progress'' None world0
                  = (Inr (), world0\<lparr>log_lines := log_lines world0 @ [line]\<rparr>)"
    by (rule tn[THEN conjunct2, THEN conjunct2, THEN conjunct2, THEN conjunct2, THEN conjunct2,
          THEN conjunct2, THEN conjunct2, THEN conjunct1, THEN mp, OF h8])
  then have 5: "length (log_lines (snd (moveIssue ?D ''issue-1'' ''In Progress'' None world0))) = 1"
    by (elim exE) (simp add: l0)
  have h6: "\<exists>e. linear_cli ?D [''comment'', ''create'', ''issue-1'', ''--body'', ''started''] = Inl e"
    using down by (rule spec)
  have "\<exists>line. addComment ?D ''issue-1'' ''started'' world0
           = (Inr (), world0\<lparr>log_lines := log_lines world0 @ [line]\<rparr>)"
    by (rule th[THEN conjunct2, THEN conjunct2, THEN conjunct2, THEN conjunct2, THEN conjunct2,
          THEN conjunct1, THEN mp, OF h6])
  then have 6: "length (log_lines (snd (addComment ?D ''issue-1'' ''started'' world0))) = 1"
    by (elim exE) (simp add: l0)
  have h5: "\<exists>out labels e. linear_cli ?F [''label'', ''list'', ''--json''] = Inr out
           \<and> parse_labels ?F (trim ?F out) = Inr labels
           \<and> find (\<lambda>l. label_name l = ''wbs/nick'') labels = None
           \<and> linear_cli ?F [''label'', ''create'', ''--name'', ''wbs/nick'', ''--json''] = Inl e"
    by (simp add: demo_env_writes_fail_def demo_env_def)
  have "\<exists>line. ensureLabel ?F ''wbs/nick'' world0
           = (Inr None, world0\<lparr>log_lines := log_lines world0 @ [line]\<rparr>)"
    by (rule tf[THEN conjunct2, THEN conjunct2, THEN conjunct2, THEN conjunct2, THEN conjunct1,
          THEN mp, OF h5])
  then have 7: "fst (ensureLabel ?F ''wbs/nick'' world0) = Inr None"
    "length (log_lines (snd (ensureLabel ?F ''wbs/nick'' world0))) = 1"
    by (elim exE, simp add: l0)+
  have r: "fst (resolveStateId ?F ''team-1'' ''In Progress'' world0) = Inr (Some ''st-2'')"
    by (simp add: hook_eval)
  have h11: "truthy (Some ''team-1'')
        \<and> (\<exists>sid e. fst (resolveStateId ?F (str_of (Some ''team-1'')) ''In Progress'' world0) = Inr sid
              \<and> linear_cli ?F [''issue'', ''move'', ''issue-1'',
                               (if truthy sid then str_of sid else ''In Progress'')] = Inl e)"
    using r by (simp add: demo_env_writes_fail_def demo_env_def)
  have "\<exists>line. moveIssue ?F ''issue-1'' ''In Progress'' (Some ''team-1'') world0
                  = (Inr (), (snd (resolveStateId ?F (str_of (Some ''team-1'')) ''In Progress'' world0))
                       \<lparr>log_lines := log_lines world0 @ [line]\<rparr>)"
    by (rule tf[THEN conjunct2, THEN conjunct2, THEN conjunct2, THEN conjunct2, THEN conjunct2,
          THEN conjunct2, THEN conjunct2, THEN conjunct2, THEN conjunct2, THEN conjunct2,
          THEN mp, OF h11])
  then have 8: "length (log_lines (snd (moveIssue ?F ''issue-1'' ''In Progress''
                                 (Some ''team-1'') world0))) = 1"
    by (elim exE) (simp add: l0)
  show ?thesis using down 1 2 3 4 5 6 7 r 8 by (intro conjI)
qed

text \<open>
  C9. The result returned by \<^verbatim>\<open>runWorkflow\<close> always has status \<^verbatim>\<open>running\<close>, while
  the row of the run has status \<^verbatim>\<open>paused\<close> exactly when the approval flag is set and a
  stories source was supplied; so the two can differ.
\<close>

theorem returned_status_always_running:
  assumes "runWorkflow E p w = (Inr res, w')"
  shows "res_status res = ''running''
       \<and> (\<exists>row. runs (committed w') = runs (committed w) @ [row] \<and> run_id row = res_id res
             \<and> (run_status row = ''paused'') = (approve p = Some True \<and> truthy (storiesFrom p)))"
proof -
  from runWorkflow_persists[OF assms] obtain workflow now ctx step_rows story_rows where
    "committed w' =
        \<lparr>runs = runs (committed w) @ [new_run_row E p workflow (res_id res) (res_runNumber res) now ctx
             (if approve p = Some True \<and> truthy (storiesFrom p) then ''paused'' else ''running'')],
         steps = steps (committed w) @ step_rows,
         stories = stories (committed w) @ story_rows\<rparr>"
    and "res_status res = ''running''"
    by blast
  then show ?thesis by (simp add: new_run_row_def)
qed

theorem returned_status_always_running_witness:
  "fst (runWorkflow demo_env demo_params world0) = Inr demo_res
   \<and> res_status demo_res = ''running''
   \<and> map run_status (runs (committed (snd (runWorkflow demo_env demo_params world0))))
       = [''paused'']"
proof -
  obtain w' where r: "runWorkflow demo_env demo_params world0 = (Inr demo_res, w')"
    using demo_run_paused by (elim exE)
  from returned_status_always_running[OF r] obtain row where
    f: "res_status demo_res = ''running''"
       "runs (committed w') = runs (committed world0) @ [row]"
       "(run_status row = ''paused'')
          = (approve demo_params = Some True \<and> truthy (storiesFrom demo_params))"
    by (elim exE conjE)
  have "run_status row = ''paused''" using f(3) by (simp add: demo_params_def)
  then show ?thesis using f(1,2) by (simp add: r world0_empty)
qed



end
